theory Spec2Isabelle
  imports Main
begin

section \<open>The RSS hub of \<^verbatim>\<open>src/server.js\<close>\<close>

text \<open>
  The server fetches a fixed list of RSS sources, maps every upstream entry to a
  normalized item, merges, sorts and deduplicates the items, renders them as an RSS
  document and keeps the rendering in a process-wide cache.

  Conventions of the embedding:
  \<^item> A JavaScript string is a \<open>string\<close>; a \<open>char\<close> stands for the UTF-16 code unit
    of the same number, so the strings covered are those of code units below 256
    (ASCII and Latin-1). \<open>length\<close> is JavaScript's \<^verbatim>\<open>.length\<close> on them.
  \<^item> A property that may be missing is a \<open>string option\<close>; \<open>None\<close> is \<^verbatim>\<open>undefined\<close>.
  \<^item> An \<^verbatim>\<open>async\<close> function returns \<open>error + 'a\<close>: \<open>Inr\<close> is the fulfilled
    promise, \<open>Inl\<close> the rejected one. A \<^verbatim>\<open>try\<close> block is a function of its own
    with the same result type, and the \<^verbatim>\<open>catch\<close> is the case distinction on it.
  \<^item> What the outside world answers is a parameter: the record \<open>env\<close> holds the outcome
    of \<^verbatim>\<open>parser.parseURL\<close> per URL, the time value of \<^verbatim>\<open>new Date(s)\<close> per string
    (\<open>None\<close> is the invalid date, whose time value is NaN), the two date formats and
    the order the engine's sort leaves an array in when the language does not fix it.
    Clock readings are arguments, in milliseconds since the epoch.
\<close>

subsection \<open>Data\<close>

datatype error = FetchError string | TypeError

record source =
  name :: string
  url :: string
  category :: string

text \<open>An entry as the parsing library hands it over; every property may be missing.\<close>

record entry =
  e_title :: "string option"
  e_link :: "string option"
  e_pubDate :: "string option"
  e_isoDate :: "string option"
  e_contentSnippet :: "string option"
  e_content :: "string option"
  e_guid :: "string option"

text \<open>The object literal built in \<^verbatim>\<open>fetchFeed\<close> (lines 53-61).\<close>

record item =
  title :: "string option"
  link :: "string option"
  pubDate :: "string option"
  description :: string
  source_name :: string
  item_category :: string
  guid :: "string option"

record env =
  parseURL :: "string \<Rightarrow> error + entry list"
  parseDate :: "string \<Rightarrow> int option"
  toUTCString :: "int \<Rightarrow> string"
  toISOString :: "int \<Rightarrow> string"
  engineOrder :: "item list \<Rightarrow> nat \<Rightarrow> nat"

definition RSS_SOURCES :: "source list" where
  "RSS_SOURCES =
    [\<lparr>name = ''Harvard Business Review'',
      url = ''http://feeds.harvardbusiness.org/harvardbusiness?format=xml'',
      category = ''Business Strategy''\<rparr>,
     \<lparr>name = ''CNBC'',
      url = ''https://www.cnbc.com/id/100003114/device/rss/rss.html'',
      category = ''Markets & Business''\<rparr>,
     \<lparr>name = ''Financial Times'',
      url = ''https://www.ft.com/rss/home'',
      category = ''Global Finance''\<rparr>,
     \<lparr>name = ''Bloomberg'',
      url = ''https://feeds.bloomberg.com/markets/news.rss'',
      category = ''Markets''\<rparr>]"

definition CACHE_DURATION :: int where
  "CACHE_DURATION = 15 * 60 * 1000"

subsection \<open>Truthiness\<close>

text \<open>
  \<^verbatim>\<open>undefined\<close> and the empty string are falsy, every other string is truthy.
  \<open>a || b\<close> is \<open>a\<close> when \<open>a\<close> is truthy and \<open>b\<close> otherwise.
\<close>

fun truthy :: "string option \<Rightarrow> bool" where
  "truthy None = False"
| "truthy (Some s) = (s \<noteq> [])"

definition js_or :: "string option \<Rightarrow> string option \<Rightarrow> string option" where
  "js_or a b = (if truthy a then a else b)"

text \<open>\<open>a || ''\<close>, whose value is always a string.\<close>

fun or_empty :: "string option \<Rightarrow> string" where
  "or_empty None = []"
| "or_empty (Some s) = s"

subsection \<open>Fetcher\<close>

definition toItem :: "source \<Rightarrow> entry \<Rightarrow> item" where
  "toItem src e =
    \<lparr>title = e_title e,
     link = e_link e,
     pubDate = js_or (e_pubDate e) (e_isoDate e),
     description = or_empty (js_or (e_contentSnippet e) (e_content e)),
     source_name = name src,
     item_category = category src,
     guid = js_or (e_guid e) (e_link e)\<rparr>"

text \<open>
  The whole body of \<^verbatim>\<open>fetchFeed\<close> is one \<^verbatim>\<open>try\<close>; its \<^verbatim>\<open>catch\<close> logs and
  returns the empty array, so the promise is fulfilled on both paths.
\<close>

definition fetchFeed_try :: "env \<Rightarrow> source \<Rightarrow> error + item list" where
  "fetchFeed_try ev src =
    (case parseURL ev (url src) of
       Inl err \<Rightarrow> Inl err
     | Inr entries \<Rightarrow> Inr (map (toItem src) entries))"

definition fetchFeed :: "env \<Rightarrow> source \<Rightarrow> error + item list" where
  "fetchFeed ev src =
    (case fetchFeed_try ev src of
       Inl err \<Rightarrow> Inr []
     | Inr items \<Rightarrow> Inr items)"

subsection \<open>Aggregator\<close>

datatype 'a settled = Fulfilled 'a | Rejected error

definition allSettled :: "(error + 'a) list \<Rightarrow> 'a settled list" where
  "allSettled ps = map (\<lambda>p. case p of Inl err \<Rightarrow> Rejected err | Inr v \<Rightarrow> Fulfilled v) ps"

text \<open>The first \<^verbatim>\<open>forEach\<close> (lines 78-85): \<open>allItems\<close> is the state of the loop.\<close>

fun concat_fulfilled :: "item list settled list \<Rightarrow> item list \<Rightarrow> item list" where
  "concat_fulfilled [] allItems = allItems"
| "concat_fulfilled (Fulfilled v # rs) allItems = concat_fulfilled rs (allItems @ v)"
| "concat_fulfilled (Rejected err # rs) allItems = concat_fulfilled rs allItems"

text \<open>
  \<^verbatim>\<open>new Date(a.pubDate || 0)\<close>: a truthy \<open>pubDate\<close> is parsed, anything else gives the
  date of time value 0. The comparator \<^verbatim>\<open>dateB - dateA\<close> is NaN (\<open>None\<close>) as soon as
  one of the two dates is invalid.
\<close>

definition dateOf :: "env \<Rightarrow> item \<Rightarrow> int option" where
  "dateOf ev it = (if truthy (pubDate it) then parseDate ev (or_empty (pubDate it)) else Some 0)"

definition compareItems :: "env \<Rightarrow> item \<Rightarrow> item \<Rightarrow> int option" where
  "compareItems ev a b =
    (case (dateOf ev a, dateOf ev b) of
       (Some dateA, Some dateB) \<Rightarrow> Some (dateB - dateA)
     | _ \<Rightarrow> None)"

text \<open>
  \<^verbatim>\<open>Array.prototype.sort\<close> is stable. When every date is valid the comparator is a
  number on every pair and consistent, and the result is the one stable ordering,
  which insertion from the right computes: an element goes in front of the first
  later element that the comparator does not put before it.
\<close>

definition sortValue :: "int option \<Rightarrow> int" where
  "sortValue v = (case v of None \<Rightarrow> 0 | Some d \<Rightarrow> d)"

fun insertBy :: "('a \<Rightarrow> 'a \<Rightarrow> int option) \<Rightarrow> 'a \<Rightarrow> 'a list \<Rightarrow> 'a list" where
  "insertBy cmp x [] = [x]"
| "insertBy cmp x (y # ys) =
    (if sortValue (cmp x y) \<le> 0 then x # y # ys else y # insertBy cmp x ys)"

definition sortBy :: "('a \<Rightarrow> 'a \<Rightarrow> int option) \<Rightarrow> 'a list \<Rightarrow> 'a list" where
  "sortBy cmp xs = foldr (insertBy cmp) xs []"

text \<open>
  The sort of lines 88-92. As soon as one date is invalid the comparator returns NaN
  against that item; the sort reads it as 0, the comparator is no longer consistent,
  and the language only promises some rearrangement of the same elements, which
  one the engine decides. The model takes that decision from the environment:
  \<open>engineOrder ev xs i\<close> is the rank the engine gives to position \<open>i\<close> of the array
  \<open>xs\<close>, and the result lists the positions by rank. Every rank function gives a
  rearrangement, and every rearrangement comes from a rank function.
\<close>

definition arraySort :: "env \<Rightarrow> item list \<Rightarrow> item list" where
  "arraySort ev xs =
    (if list_all (\<lambda>it. dateOf ev it \<noteq> None) xs
     then sortBy (compareItems ev) xs
     else map (\<lambda>i. xs ! i) (sort_key (engineOrder ev xs) [0..<length xs]))"

text \<open>
  The key of the deduplication (line 99): \<^verbatim>\<open>toLowerCase()\<close>, then every match of
  \<^verbatim>\<open>/[^\w\s]/g\<close> removed. \<^verbatim>\<open>\w\<close> is \<^verbatim>\<open>[A-Za-z0-9_]\<close>; below 256 the white space of
  \<^verbatim>\<open>\s\<close> is TAB, LF, VT, FF, CR, SPACE and the no-break space 160. Lower-casing moves
  \<open>A\<close>-\<open>Z\<close> and the Latin-1 capitals 192-222 (without the multiplication sign 215) up
  by 32 and leaves every other code unit below 256 alone.
\<close>

definition toLowerChar :: "char \<Rightarrow> char" where
  "toLowerChar c =
    (let n = (of_char c :: nat)
     in if (65 \<le> n \<and> n \<le> 90) \<or> (192 \<le> n \<and> n \<le> 222 \<and> n \<noteq> 215)
        then char_of (n + 32) else c)"

definition toLowerCase :: "string \<Rightarrow> string" where
  "toLowerCase s = map toLowerChar s"

definition isWordChar :: "char \<Rightarrow> bool" where
  "isWordChar c =
    (let n = (of_char c :: nat)
     in (65 \<le> n \<and> n \<le> 90) \<or> (97 \<le> n \<and> n \<le> 122) \<or> (48 \<le> n \<and> n \<le> 57) \<or> n = 95)"

definition isSpaceChar :: "char \<Rightarrow> bool" where
  "isSpaceChar c =
    (let n = (of_char c :: nat) in (9 \<le> n \<and> n \<le> 13) \<or> n = 32 \<or> n = 160)"

definition normalizeTitle :: "string \<Rightarrow> string" where
  "normalizeTitle t = filter (\<lambda>c. isWordChar c \<or> isSpaceChar c) (toLowerCase t)"

text \<open>
  The second \<^verbatim>\<open>forEach\<close> (lines 95-104); the state of the loop is the set
  \<open>seenTitles\<close> and the array \<open>uniqueItems\<close>. \<^verbatim>\<open>item.title.toLowerCase()\<close> throws a
  TypeError on an item without a title, which ends the loop and the \<^verbatim>\<open>try\<close> block.
\<close>

fun dedupLoop :: "item list \<Rightarrow> string set \<times> item list \<Rightarrow> error + string set \<times> item list" where
  "dedupLoop [] st = Inr st"
| "dedupLoop (it # its) (seenTitles, uniqueItems) =
    (case title it of
       None \<Rightarrow> Inl TypeError
     | Some t \<Rightarrow>
         (let normalizedTitle = normalizeTitle t
          in if normalizedTitle \<in> seenTitles
             then dedupLoop its (seenTitles, uniqueItems)
             else dedupLoop its (insert normalizedTitle seenTitles, uniqueItems @ [it])))"

definition allItemsOf :: "env \<Rightarrow> source list \<Rightarrow> item list" where
  "allItemsOf ev srcs = concat_fulfilled (allSettled (map (fetchFeed ev) srcs)) []"

definition sortedItemsOf :: "env \<Rightarrow> source list \<Rightarrow> item list" where
  "sortedItemsOf ev srcs = arraySort ev (allItemsOf ev srcs)"

text \<open>
  \<^verbatim>\<open>combinedRSSFeed\<close>: the \<^verbatim>\<open>try\<close> block (lines 71-107) and the function with its
  \<^verbatim>\<open>catch\<close> (lines 109-112). The source list is the constant \<open>RSS_SOURCES\<close> in the
  code and an argument here.
\<close>

definition combinedRSSFeed_try :: "env \<Rightarrow> source list \<Rightarrow> error + item list" where
  "combinedRSSFeed_try ev srcs =
    (case dedupLoop (sortedItemsOf ev srcs) ({}, []) of
       Inl err \<Rightarrow> Inl err
     | Inr (seenTitles, uniqueItems) \<Rightarrow> Inr (take 100 uniqueItems))"

definition combinedRSSFeed :: "env \<Rightarrow> source list \<Rightarrow> error + item list" where
  "combinedRSSFeed ev srcs =
    (case combinedRSSFeed_try ev srcs of
       Inl err \<Rightarrow> Inr []
     | Inr items \<Rightarrow> Inr items)"

subsection \<open>Renderer\<close>

text \<open>
  \<^verbatim>\<open>str.replace(/c/g, r)\<close> for a one-character pattern, and \<^verbatim>\<open>escapeXML\<close> (lines
  150-158) as the five replacements in the order of the code. A falsy argument
  (\<^verbatim>\<open>undefined\<close> or the empty string) gives the empty string.
\<close>

definition replaceAll :: "char \<Rightarrow> string \<Rightarrow> string \<Rightarrow> string" where
  "replaceAll c r s = concat (map (\<lambda>x. if x = c then r else [x]) s)"

definition escapeXML :: "string option \<Rightarrow> string" where
  "escapeXML str =
    (if \<not> truthy str then []
     else replaceAll (CHR 0x27) ''&#39;''
           (replaceAll (CHR 0x22) ''&quot;''
             (replaceAll CHR ''>'' ''&gt;''
               (replaceAll CHR ''<'' ''&lt;''
                 (replaceAll CHR ''&'' ''&amp;'' (or_empty str))))))"

definition nl :: string where
  "nl = [CHR 0x0A]"

definition dq :: string where
  "dq = [CHR 0x22]"

text \<open>\<^verbatim>\<open>item.description.substring(0, 500) + (item.description.length > 500 ? '...' : '')\<close>\<close>

definition truncateDescription :: "string \<Rightarrow> string" where
  "truncateDescription d = take 500 d @ (if length d > 500 then ''...'' else [])"

text \<open>
  \<^verbatim>\<open>item.pubDate ? new Date(item.pubDate).toUTCString() : now\<close>; the invalid date
  prints as \<^verbatim>\<open>Invalid Date\<close>.
\<close>

definition renderPubDate :: "env \<Rightarrow> string \<Rightarrow> item \<Rightarrow> string" where
  "renderPubDate ev now it =
    (if truthy (pubDate it)
     then (case parseDate ev (or_empty (pubDate it)) of
             None \<Rightarrow> ''Invalid Date''
           | Some t \<Rightarrow> toUTCString ev t)
     else now)"

text \<open>The callback of \<^verbatim>\<open>items.map\<close> (lines 119-133), one template literal per item.\<close>

definition renderItem :: "env \<Rightarrow> string \<Rightarrow> item \<Rightarrow> string" where
  "renderItem ev now it =
    (let pubDate = renderPubDate ev now it;
         description = escapeXML (Some (truncateDescription (description it)))
     in nl @ ''    <item>'' @ nl
        @ ''      <title>'' @ escapeXML (title it) @ ''</title>'' @ nl
        @ ''      <link>'' @ escapeXML (link it) @ ''</link>'' @ nl
        @ ''      <description>'' @ description @ ''</description>'' @ nl
        @ ''      <pubDate>'' @ pubDate @ ''</pubDate>'' @ nl
        @ ''      <source>'' @ escapeXML (Some (source_name it)) @ ''</source>'' @ nl
        @ ''      <category>'' @ escapeXML (Some (item_category it)) @ ''</category>'' @ nl
        @ ''      <guid>'' @ escapeXML (guid it) @ ''</guid>'' @ nl
        @ ''    </item>'')"

definition generateRSSXML :: "env \<Rightarrow> int \<Rightarrow> item list \<Rightarrow> string" where
  "generateRSSXML ev clock items =
    (let now = toUTCString ev clock;
         rssItems = concat (map (renderItem ev now) items)
     in ''<?xml version='' @ dq @ ''1.0'' @ dq @ '' encoding='' @ dq @ ''UTF-8'' @ dq @ ''?>'' @ nl
        @ ''<rss version='' @ dq @ ''2.0'' @ dq @ ''>'' @ nl
        @ ''  <channel>'' @ nl
        @ ''    <title>Financial News Hub - Combined Feed</title>'' @ nl
        @ ''    <link>https://your-domain.com/rss</link>'' @ nl
        @ ''    <description>Combined RSS feed from Harvard Business Review, Wall Street Journal, CNBC, Financial Times, and Bloomberg</description>'' @ nl
        @ ''    <language>en-us</language>'' @ nl
        @ ''    <lastBuildDate>'' @ now @ ''</lastBuildDate>'' @ nl
        @ ''    <ttl>15</ttl>'' @ nl
        @ ''    '' @ rssItems @ nl
        @ ''  </channel>'' @ nl
        @ ''</rss>'')"

subsection \<open>Cache and routes\<close>

text \<open>
  The two module variables of the cache and, as the trace of the refreshes, the lines
  that \<^verbatim>\<open>updateCache\<close> itself writes to the console. The diagnostics of the
  Fetcher and the Aggregator change no state and are left out.
\<close>

record server =
  cachedFeed :: "string option"
  lastUpdate :: "int option"
  console :: "string list"

definition initialServer :: server where
  "initialServer = \<lparr>cachedFeed = None, lastUpdate = None, console = []\<rparr>"

definition consoleLog :: "string \<Rightarrow> server \<Rightarrow> server" where
  "consoleLog line st = st\<lparr>console := console st @ [line]\<rparr>"

text \<open>
  \<^verbatim>\<open>updateCache\<close> (lines 161-167). \<open>tRender\<close> is the clock read inside
  \<^verbatim>\<open>generateRSSXML\<close>, \<open>tUpdate\<close> the one read for \<open>lastUpdate\<close>. A rejection of
  the awaited aggregation would leave both cache variables as they were.
\<close>

definition updateCache ::
  "env \<Rightarrow> source list \<Rightarrow> int \<Rightarrow> int \<Rightarrow> server \<Rightarrow> (error + unit) \<times> server" where
  "updateCache ev srcs tRender tUpdate st =
    (let st1 = consoleLog ''Updating RSS cache...'' st
     in case combinedRSSFeed ev srcs of
          Inl err \<Rightarrow> (Inl err, st1)
        | Inr items \<Rightarrow>
            (Inr (),
             consoleLog ''Cache updated successfully''
               (st1\<lparr>cachedFeed := Some (generateRSSXML ev tRender items),
                    lastUpdate := Some tUpdate\<rparr>)))"

datatype response =
    RssOk string
  | JsonOk string string "item list" string "string list"
  | Status500 string

text \<open>
  The test of line 185:
  \<^verbatim>\<open>!cachedFeed || !lastUpdate || (Date.now() - lastUpdate.getTime()) > CACHE_DURATION\<close>.
\<close>

definition needsUpdate :: "int \<Rightarrow> server \<Rightarrow> bool" where
  "needsUpdate now st =
    (case lastUpdate st of
       None \<Rightarrow> True
     | Some t \<Rightarrow> if truthy (cachedFeed st) then now - t > CACHE_DURATION else True)"

text \<open>
  \<^verbatim>\<open>GET /rss\<close> (lines 182-195): \<open>now\<close> is \<^verbatim>\<open>Date.now()\<close> of the test. The result is
  the response and the server state after the request.
\<close>

definition getRss ::
  "env \<Rightarrow> source list \<Rightarrow> int \<Rightarrow> int \<Rightarrow> int \<Rightarrow> server \<Rightarrow> response \<times> server" where
  "getRss ev srcs now tRender tUpdate st =
    (let (r, st1) = (if needsUpdate now st
                     then updateCache ev srcs tRender tUpdate st
                     else (Inr (), st))
     in case r of
          Inl err \<Rightarrow> (Status500 ''Failed to generate RSS feed'', st1)
        | Inr u \<Rightarrow> (RssOk (or_empty (cachedFeed st1)), st1))"

text \<open>\<^verbatim>\<open>GET /json\<close> (lines 197-211): a fresh aggregation, the cache is not touched.\<close>

definition getJson :: "env \<Rightarrow> source list \<Rightarrow> int \<Rightarrow> response" where
  "getJson ev srcs now =
    (case combinedRSSFeed ev srcs of
       Inl err \<Rightarrow> Status500 ''Failed to generate JSON feed''
     | Inr items \<Rightarrow>
         JsonOk ''Financial News Hub - Combined Feed''
                ''Combined feed from top financial news sources''
                items (toISOString ev now) (map name srcs))"

subsection \<open>Notions of the specification\<close>

text \<open>
  Keeping the first occurrence of every key, stated without the loop and its set:
  the head stays, and everything behind it with the head's key goes.
\<close>

fun keepFirst :: "('a \<Rightarrow> 'k) \<Rightarrow> 'a list \<Rightarrow> 'a list" where
  "keepFirst key [] = []"
| "keepFirst key (x # xs) = x # keepFirst key (filter (\<lambda>y. key y \<noteq> key x) xs)"

text \<open>The key of an item as the code computes it; an item without a title has none.\<close>

definition itemKey :: "item \<Rightarrow> string option" where
  "itemKey it = map_option normalizeTitle (title it)"

text \<open>
  The key in the words of the specification: lower-case the title and remove every
  character that is not a letter, a digit or white space. The letters below 256 are
  the ASCII letters, the ordinal indicators 170 and 186, the micro sign 181 and the
  Latin-1 letters 192-255 without the signs 215 and 247.
\<close>

definition isLetter :: "char \<Rightarrow> bool" where
  "isLetter c =
    (let n = (of_char c :: nat)
     in (65 \<le> n \<and> n \<le> 90) \<or> (97 \<le> n \<and> n \<le> 122) \<or> n = 170 \<or> n = 181 \<or> n = 186
        \<or> (192 \<le> n \<and> n \<le> 255 \<and> n \<noteq> 215 \<and> n \<noteq> 247))"

definition isDigit :: "char \<Rightarrow> bool" where
  "isDigit c = (let n = (of_char c :: nat) in 48 \<le> n \<and> n \<le> 57)"

definition specKey :: "string \<Rightarrow> string" where
  "specKey t = filter (\<lambda>c. isLetter c \<or> isDigit c \<or> isSpaceChar c) (toLowerCase t)"

text \<open>The time value an item is sorted by: that of its date, 0 for NaN.\<close>

definition timestamp :: "env \<Rightarrow> item \<Rightarrow> int" where
  "timestamp ev it = sortValue (dateOf ev it)"

text \<open>Escaping in the words of the specification: every character on its own.\<close>

definition escapeChar :: "char \<Rightarrow> string" where
  "escapeChar c =
    (if c = CHR ''&'' then ''&amp;''
     else if c = CHR ''<'' then ''&lt;''
     else if c = CHR ''>'' then ''&gt;''
     else if c = CHR 0x22 then ''&quot;''
     else if c = CHR 0x27 then ''&#39;''
     else [c])"

definition escaped :: "string \<Rightarrow> string" where
  "escaped s = concat (map escapeChar s)"

subsection \<open>Sample inputs\<close>

text \<open>
  An environment from two tables: the feeds that answer, by URL, and the date strings
  that parse. Every other URL fails and every other date string is invalid. Its
  engine leaves an array with an invalid date in the order it has.
\<close>

definition sampleEnv :: "(string \<times> entry list) list \<Rightarrow> (string \<times> int) list \<Rightarrow> env" where
  "sampleEnv feeds dates =
    \<lparr>parseURL = (\<lambda>u. case map_of feeds u of
                        None \<Rightarrow> Inl (FetchError ''ENOTFOUND'')
                      | Some entries \<Rightarrow> Inr entries),
     parseDate = map_of dates,
     toUTCString = (\<lambda>t. if t = 0 then ''Thu, 01 Jan 1970 00:00:00 GMT'' else ''some day''),
     toISOString = (\<lambda>t. if t = 0 then ''1970-01-01T00:00:00.000Z'' else ''some-day''),
     engineOrder = (\<lambda>xs i. i)\<rparr>"

definition sampleSource :: "string \<Rightarrow> source" where
  "sampleSource u = \<lparr>name = u, url = u, category = ''News''\<rparr>"

definition sampleEntry :: "string option \<Rightarrow> string option \<Rightarrow> entry" where
  "sampleEntry t d =
    \<lparr>e_title = t, e_link = None, e_pubDate = d, e_isoDate = None,
     e_contentSnippet = None, e_content = None, e_guid = None\<rparr>"

definition sampleItem :: "string \<Rightarrow> string option \<Rightarrow> string option \<Rightarrow> item" where
  "sampleItem u t d =
    \<lparr>title = t, link = None, pubDate = d, description = [],
     source_name = u, item_category = ''News'', guid = None\<rparr>"

section \<open>Properties\<close>

subsection \<open>Fetching and merging\<close>

lemma fetchFeed_eq:
  "fetchFeed ev src =
    Inr (case parseURL ev (url src) of Inl err \<Rightarrow> [] | Inr entries \<Rightarrow> map (toItem src) entries)"
  by (simp add: fetchFeed_def fetchFeed_try_def split: sum.split)

lemma fetchFeed_failed:
  "parseURL ev (url src) = Inl err \<Longrightarrow> fetchFeed ev src = Inr []"
  by (simp add: fetchFeed_eq)

lemma concat_fulfilled_append:
  "concat_fulfilled (rs @ rs') acc = concat_fulfilled rs' (concat_fulfilled rs acc)"
  by (induction rs acc rule: concat_fulfilled.induct) simp_all

lemma allSettled_append: "allSettled (ps @ qs) = allSettled ps @ allSettled qs"
  by (simp add: allSettled_def)

lemma allItemsOf_drop_failed:
  assumes "parseURL ev (url src) = Inl err"
  shows "allItemsOf ev (xs @ src # ys) = allItemsOf ev (xs @ ys)"
  using fetchFeed_failed [OF assms]
  by (simp add: allItemsOf_def allSettled_append concat_fulfilled_append)
     (simp add: allSettled_def)

lemma concat_fulfilled_all_failed:
  "\<forall>src \<in> set srcs. \<exists>err. parseURL ev (url src) = Inl err \<Longrightarrow>
   concat_fulfilled (allSettled (map (fetchFeed ev) srcs)) acc = acc"
  by (induction srcs) (auto simp: allSettled_def fetchFeed_eq)

lemma concat_fulfilled_set:
  "set (concat_fulfilled (allSettled (map (fetchFeed ev) srcs)) acc) =
   set acc \<union> (\<Union>src \<in> set srcs.
      case parseURL ev (url src) of Inl err \<Rightarrow> {} | Inr entries \<Rightarrow> toItem src ` set entries)"
  by (induction srcs arbitrary: acc)
     (auto simp: allSettled_def fetchFeed_eq split: sum.splits)

subsection \<open>Sorting\<close>

lemma set_insertBy: "set (insertBy cmp x xs) = insert x (set xs)"
  by (induction xs) auto

lemma set_sortBy: "set (sortBy cmp xs) = set xs"
  by (induction xs) (simp_all add: sortBy_def set_insertBy)

lemma length_insertBy: "length (insertBy cmp x xs) = Suc (length xs)"
  by (induction xs) simp_all

lemma length_sortBy: "length (sortBy cmp xs) = length xs"
  by (induction xs) (simp_all add: sortBy_def length_insertBy)

lemma set_by_rank: "set (map (\<lambda>i. xs ! i) (sort_key rank [0..<length xs])) = set xs"
proof -
  have "set (map (\<lambda>i. xs ! i) (sort_key rank [0..<length xs])) = (\<lambda>i. xs ! i) ` {0..<length xs}"
    by simp
  also have "\<dots> = set xs"
    by (auto simp: set_conv_nth)
  finally show ?thesis .
qed

lemma set_arraySort: "set (arraySort ev xs) = set xs"
proof (cases "list_all (\<lambda>it. dateOf ev it \<noteq> None) xs")
  case True
  then show ?thesis by (simp add: arraySort_def set_sortBy)
next
  case False
  then have "arraySort ev xs = map (\<lambda>i. xs ! i) (sort_key (engineOrder ev xs) [0..<length xs])"
    by (simp add: arraySort_def)
  then show ?thesis by (simp only: set_by_rank)
qed

lemma length_arraySort: "length (arraySort ev xs) = length xs"
  by (simp add: arraySort_def length_sortBy)

lemma arraySort_Nil: "arraySort ev [] = []"
  by (simp add: arraySort_def sortBy_def)

lemma arraySort_valid:
  "\<forall>it \<in> set xs. dateOf ev it \<noteq> None \<Longrightarrow> arraySort ev xs = sortBy (compareItems ev) xs"
  by (simp add: arraySort_def list_all_iff)

lemma arraySort_unranked:
  assumes "\<not> list_all (\<lambda>it. dateOf ev it \<noteq> None) xs" and "engineOrder ev xs = (\<lambda>i. i)"
  shows "arraySort ev xs = xs"
proof -
  have "sort_key (\<lambda>i. i) [0..<length xs] = [0..<length xs]"
    by (rule sort_key_id_if_sorted) simp
  with assms show ?thesis
    by (simp add: arraySort_def map_nth)
qed

subsection \<open>Deduplication\<close>

lemma set_keepFirst_subset: "set (keepFirst key xs) \<subseteq> set xs"
  by (induction key xs rule: keepFirst.induct) auto

lemma distinct_keepFirst: "distinct (map key (keepFirst key xs))"
proof (induction key xs rule: keepFirst.induct)
  case (1 key)
  show ?case by simp
next
  case (2 key x xs)
  have "key x \<notin> key ` set (keepFirst key (filter (\<lambda>y. key y \<noteq> key x) xs))"
    using set_keepFirst_subset [of key "filter (\<lambda>y. key y \<noteq> key x) xs"] by auto
  with 2 show ?case by simp
qed

lemma keepFirst_filter_commute:
  "keepFirst key (filter (\<lambda>y. key y \<notin> S) xs) = filter (\<lambda>y. key y \<notin> S) (keepFirst key xs)"
proof (induction key xs rule: keepFirst.induct)
  case (1 key)
  show ?case by simp
next
  case (2 key x xs)
  have swap: "filter (\<lambda>y. key y \<noteq> key x) (filter (\<lambda>y. key y \<notin> S) xs) =
              filter (\<lambda>y. key y \<notin> S) (filter (\<lambda>y. key y \<noteq> key x) xs)"
    by (simp add: conj_commute)
  show ?case
  proof (cases "key x \<in> S")
    case True
    have "filter (\<lambda>y. key y \<notin> S) xs =
          filter (\<lambda>y. key y \<notin> S) (filter (\<lambda>y. key y \<noteq> key x) xs)"
      using True by (auto intro: filter_cong)
    with True 2 show ?thesis by simp
  next
    case False
    with 2 swap show ?thesis by simp
  qed
qed

lemma dedupLoop_missing_title:
  "\<exists>it \<in> set its. title it = None \<Longrightarrow> dedupLoop its st = Inl TypeError"
proof (induction its arbitrary: st)
  case Nil
  then show ?case by simp
next
  case (Cons it its)
  obtain seen acc where st: "st = (seen, acc)" by (cases st)
  show ?case
  proof (cases "title it")
    case None
    then show ?thesis by (simp add: st)
  next
    case (Some t)
    with Cons.prems have "\<exists>it \<in> set its. title it = None" by auto
    then have "\<And>st'. dedupLoop its st' = Inl TypeError" by (rule Cons.IH)
    with Some show ?thesis by (simp add: st Let_def)
  qed
qed

lemma dedupLoop_titles:
  "\<forall>it \<in> set its. title it \<noteq> None \<Longrightarrow>
   \<exists>seen'. dedupLoop its (seen, acc) =
     Inr (seen', acc @ keepFirst itemKey (filter (\<lambda>y. itemKey y \<notin> Some ` seen) its))"
proof (induction its arbitrary: seen acc)
  case Nil
  then show ?case by simp
next
  case (Cons it its)
  from Cons.prems obtain t where t: "title it = Some t" by auto
  from Cons.prems have rest: "\<forall>it \<in> set its. title it \<noteq> None" by simp
  have key: "itemKey it = Some (normalizeTitle t)" by (simp add: itemKey_def t)
  show ?case
  proof (cases "normalizeTitle t \<in> seen")
    case True
    then have "itemKey it \<in> Some ` seen" by (simp add: key)
    with True Cons.IH [OF rest, of seen acc] show ?thesis by (simp add: t)
  next
    case False
    then have out: "itemKey it \<notin> Some ` seen" by (auto simp: key)
    have "filter (\<lambda>y. itemKey y \<notin> Some ` insert (normalizeTitle t) seen) its =
          filter (\<lambda>y. itemKey y \<noteq> itemKey it) (filter (\<lambda>y. itemKey y \<notin> Some ` seen) its)"
      by (auto simp: key intro: filter_cong)
    with False out Cons.IH [OF rest, of "insert (normalizeTitle t) seen" "acc @ [it]"]
    show ?thesis by (simp add: t)
  qed
qed

lemma combinedRSSFeed_try_eq:
  "combinedRSSFeed_try ev srcs =
    (if \<exists>it \<in> set (sortedItemsOf ev srcs). title it = None then Inl TypeError
     else Inr (take 100 (keepFirst itemKey (sortedItemsOf ev srcs))))"
proof (cases "\<exists>it \<in> set (sortedItemsOf ev srcs). title it = None")
  case True
  then show ?thesis
    by (simp add: combinedRSSFeed_try_def dedupLoop_missing_title)
next
  case False
  then have "\<forall>it \<in> set (sortedItemsOf ev srcs). title it \<noteq> None" by simp
  from dedupLoop_titles [OF this, of "{}" "[]"]
  obtain seen' where "dedupLoop (sortedItemsOf ev srcs) ({}, []) =
      Inr (seen', keepFirst itemKey (sortedItemsOf ev srcs))"
    by auto
  with False show ?thesis
    by (simp add: combinedRSSFeed_try_def)
qed

lemma combinedRSSFeed_eq:
  "combinedRSSFeed ev srcs =
    Inr (if \<exists>it \<in> set (sortedItemsOf ev srcs). title it = None then []
         else take 100 (keepFirst itemKey (sortedItemsOf ev srcs)))"
  by (cases "\<exists>it \<in> set (sortedItemsOf ev srcs). title it = None")
     (simp_all add: combinedRSSFeed_def combinedRSSFeed_try_eq del: not_None_eq)

lemma combinedRSSFeed_subset:
  "combinedRSSFeed ev srcs = Inr items \<Longrightarrow> set items \<subseteq> set (allItemsOf ev srcs)"
  using set_keepFirst_subset [of itemKey "sortedItemsOf ev srcs"]
  by (auto simp: combinedRSSFeed_eq sortedItemsOf_def set_arraySort split: if_splits
           dest!: in_set_takeD)

subsection \<open>The key and the result of a run\<close>

lemma isWordChar_iff:
  "isWordChar c \<longleftrightarrow>
     c \<in> set ''abcdefghijklmnopqrstuvwxyzABCDEFGHIJKLMNOPQRSTUVWXYZ0123456789_''"
  by (cases c) (simp add: isWordChar_def)

lemma isSpaceChar_iff:
  "isSpaceChar c \<longleftrightarrow>
     c \<in> {CHR 0x09, CHR 0x0A, CHR 0x0B, CHR 0x0C, CHR 0x0D, CHR '' '', CHR 0xA0}"
  by (cases c) (simp add: isSpaceChar_def)

lemma normalizeTitle_chars:
  "normalizeTitle t =
        filter (\<lambda>c. c \<in> set ''abcdefghijklmnopqrstuvwxyzABCDEFGHIJKLMNOPQRSTUVWXYZ0123456789_''
                   \<or> c \<in> {CHR 0x09, CHR 0x0A, CHR 0x0B, CHR 0x0C, CHR 0x0D, CHR '' '', CHR 0xA0})
          (toLowerCase t)"
  by (simp only: normalizeTitle_def isWordChar_iff isSpaceChar_iff)


lemma combinedRSSFeed_distinct_keys:
  assumes "combinedRSSFeed ev srcs = Inr items"
  shows "distinct (map itemKey items)"
proof (cases "\<exists>it \<in> set (sortedItemsOf ev srcs). title it = None")
  case True
  with assms have "items = []"
    by (simp add: combinedRSSFeed_eq del: not_None_eq)
  then show ?thesis by simp
next
  case False
  with assms have "items = take 100 (keepFirst itemKey (sortedItemsOf ev srcs))"
    by (simp add: combinedRSSFeed_eq del: not_None_eq)
  moreover have "distinct (take 100 (map itemKey (keepFirst itemKey (sortedItemsOf ev srcs))))"
    by (rule distinct_take) (rule distinct_keepFirst)
  ultimately show ?thesis by (simp add: take_map)
qed

lemma combinedRSSFeed_titled:
  assumes "combinedRSSFeed ev srcs = Inr items" and "it \<in> set items"
  shows "\<exists>t. title it = Some t \<and> itemKey it = Some (normalizeTitle t)"
proof (cases "\<exists>it \<in> set (sortedItemsOf ev srcs). title it = None")
  case True
  with assms(1) have "items = []"
    by (simp add: combinedRSSFeed_eq del: not_None_eq)
  with assms(2) show ?thesis by simp
next
  case False
  with assms(1) have "items = take 100 (keepFirst itemKey (sortedItemsOf ev srcs))"
    by (simp add: combinedRSSFeed_eq del: not_None_eq)
  with assms(2) have "it \<in> set (keepFirst itemKey (sortedItemsOf ev srcs))"
    by (auto dest: in_set_takeD)
  then have "it \<in> set (sortedItemsOf ev srcs)"
    using set_keepFirst_subset [of itemKey "sortedItemsOf ev srcs"] by auto
  with False obtain t where "title it = Some t" by auto
  then show ?thesis by (simp add: itemKey_def)
qed

lemma allItemsOf_set:
  "set (allItemsOf ev srcs) =
    (\<Union>src \<in> set srcs.
      case parseURL ev (url src) of Inl err \<Rightarrow> {} | Inr entries \<Rightarrow> toItem src ` set entries)"
  by (simp add: allItemsOf_def concat_fulfilled_set)

lemma allItemsOf_mem:
  assumes "it \<in> set (allItemsOf ev srcs)"
  shows "\<exists>src entries e. src \<in> set srcs \<and> parseURL ev (url src) = Inr entries \<and>
           e \<in> set entries \<and> it = toItem src e"
proof -
  from assms obtain src where src: "src \<in> set srcs"
    and mem: "it \<in> (case parseURL ev (url src) of
                      Inl err \<Rightarrow> {} | Inr entries \<Rightarrow> toItem src ` set entries)"
    unfolding allItemsOf_set by blast
  show ?thesis
  proof (cases "parseURL ev (url src)")
    case (Inl err)
    with mem show ?thesis by simp
  next
    case (Inr entries)
    with mem src show ?thesis by auto
  qed
qed

subsection \<open>Order of the result\<close>

lemma sortValue_compareItems:
  "dateOf ev a = Some ta \<Longrightarrow> dateOf ev b = Some tb \<Longrightarrow>
   sortValue (compareItems ev a b) = tb - ta"
  by (simp add: compareItems_def sortValue_def)

lemma timestamp_valid: "dateOf ev a = Some ta \<Longrightarrow> timestamp ev a = ta"
  by (simp add: timestamp_def sortValue_def)

lemma sorted_insertBy:
  assumes "\<forall>it \<in> insert x (set xs). dateOf ev it \<noteq> None"
    and "sorted_wrt (\<lambda>a b. timestamp ev b \<le> timestamp ev a) xs"
  shows "sorted_wrt (\<lambda>a b. timestamp ev b \<le> timestamp ev a) (insertBy (compareItems ev) x xs)"
  using assms
proof (induction xs)
  case Nil
  then show ?case by simp
next
  case (Cons y ys)
  from Cons.prems(1) obtain tx ty where tx: "dateOf ev x = Some tx" and ty: "dateOf ev y = Some ty"
    by auto
  show ?case
  proof (cases "sortValue (compareItems ev x y) \<le> 0")
    case True
    then have "timestamp ev y \<le> timestamp ev x"
      by (simp add: sortValue_compareItems [OF tx ty] timestamp_valid [OF tx] timestamp_valid [OF ty])
    with True Cons.prems(2) show ?thesis by fastforce
  next
    case False
    then have "timestamp ev x \<le> timestamp ev y"
      by (simp add: sortValue_compareItems [OF tx ty] timestamp_valid [OF tx] timestamp_valid [OF ty])
    moreover have "sorted_wrt (\<lambda>a b. timestamp ev b \<le> timestamp ev a) (insertBy (compareItems ev) x ys)"
      using Cons.IH Cons.prems by simp
    ultimately show ?thesis
      using False Cons.prems(2) by (simp add: set_insertBy)
  qed
qed

lemma sorted_sortBy:
  "\<forall>it \<in> set xs. dateOf ev it \<noteq> None \<Longrightarrow>
   sorted_wrt (\<lambda>a b. timestamp ev b \<le> timestamp ev a) (sortBy (compareItems ev) xs)"
proof (induction xs)
  case Nil
  then show ?case by (simp add: sortBy_def)
next
  case (Cons x xs)
  then have "sorted_wrt (\<lambda>a b. timestamp ev b \<le> timestamp ev a) (sortBy (compareItems ev) xs)"
    by simp
  moreover have "\<forall>it \<in> insert x (set (sortBy (compareItems ev) xs)). dateOf ev it \<noteq> None"
    using Cons.prems by (simp add: set_sortBy)
  ultimately have "sorted_wrt (\<lambda>a b. timestamp ev b \<le> timestamp ev a)
      (insertBy (compareItems ev) x (sortBy (compareItems ev) xs))"
    by (rule sorted_insertBy [rotated])
  then show ?case by (simp add: sortBy_def)
qed

lemma sorted_wrt_keepFirst:
  "sorted_wrt R xs \<Longrightarrow> sorted_wrt R (keepFirst key xs)"
proof (induction key xs rule: keepFirst.induct)
  case (1 key)
  then show ?case by simp
next
  case (2 key x xs)
  let ?rest = "filter (\<lambda>y. key y \<noteq> key x) xs"
  from "2.prems" have "sorted_wrt R ?rest" by (simp add: sorted_wrt_filter)
  then have "sorted_wrt R (keepFirst key ?rest)" by (rule "2.IH")
  moreover have "\<forall>y \<in> set (keepFirst key ?rest). R x y"
    using set_keepFirst_subset [of key ?rest] "2.prems" by auto
  ultimately show ?case by simp
qed

lemma combinedRSSFeed_sorted:
  assumes "\<forall>it \<in> set (allItemsOf ev srcs). dateOf ev it \<noteq> None"
    and "combinedRSSFeed ev srcs = Inr items"
  shows "sorted_wrt (\<lambda>a b. timestamp ev b \<le> timestamp ev a) items"
proof (cases "\<exists>it \<in> set (sortedItemsOf ev srcs). title it = None")
  case True
  with assms(2) have "items = []"
    by (simp add: combinedRSSFeed_eq del: not_None_eq)
  then show ?thesis by simp
next
  case False
  with assms(2) have "items = take 100 (keepFirst itemKey (sortedItemsOf ev srcs))"
    by (simp add: combinedRSSFeed_eq del: not_None_eq)
  moreover have "sorted_wrt (\<lambda>a b. timestamp ev b \<le> timestamp ev a) (sortedItemsOf ev srcs)"
    unfolding sortedItemsOf_def arraySort_valid [OF assms(1)] using assms(1) by (rule sorted_sortBy)
  ultimately show ?thesis
    by (simp add: sorted_wrt_keepFirst sorted_wrt_take)
qed

subsection \<open>Escaping\<close>

lemma replaceAll_Nil: "replaceAll c r [] = []"
  by (simp add: replaceAll_def)

lemma replaceAll_Cons: "replaceAll c r (x # xs) = (if x = c then r else [x]) @ replaceAll c r xs"
  by (simp add: replaceAll_def)

lemma replaceAll_append: "replaceAll c r (xs @ ys) = replaceAll c r xs @ replaceAll c r ys"
  by (simp add: replaceAll_def)

lemma five_replacements:
  "replaceAll (CHR 0x27) ''&#39;''
     (replaceAll (CHR 0x22) ''&quot;''
       (replaceAll CHR ''>'' ''&gt;''
         (replaceAll CHR ''<'' ''&lt;''
           (replaceAll CHR ''&'' ''&amp;'' s)))) = escaped s"
proof (induction s)
  case Nil
  show ?case by (simp add: replaceAll_Nil escaped_def)
next
  case (Cons c s)
  have "replaceAll (CHR 0x27) ''&#39;''
     (replaceAll (CHR 0x22) ''&quot;''
       (replaceAll CHR ''>'' ''&gt;''
         (replaceAll CHR ''<'' ''&lt;''
           (if c = CHR ''&'' then ''&amp;'' else [c])))) = escapeChar c"
    by (simp add: replaceAll_Cons replaceAll_Nil escapeChar_def)
  with Cons show ?case
    by (simp add: replaceAll_Cons replaceAll_append escaped_def del: append.simps)
qed

lemma escapeXML_escaped: "escapeXML str = escaped (or_empty str)"
proof (cases "truthy str")
  case True
  then show ?thesis by (simp add: escapeXML_def five_replacements)
next
  case False
  then have "or_empty str = []" by (cases str) simp_all
  with False show ?thesis by (simp add: escapeXML_def escaped_def)
qed

lemma escapeChar_no_raw:
  "set (escapeChar c) \<inter> {CHR ''<'', CHR ''>'', CHR 0x22, CHR 0x27} = {}"
  by (simp add: escapeChar_def)

lemma escaped_no_raw:
  "set (escaped s) \<inter> {CHR ''<'', CHR ''>'', CHR 0x22, CHR 0x27} = {}"
proof -
  have "set (escaped s) = (\<Union>c \<in> set s. set (escapeChar c))"
    by (simp add: escaped_def)
  then show ?thesis using escapeChar_no_raw by blast
qed

lemma escaped_append: "escaped (xs @ ys) = escaped xs @ escaped ys"
  by (simp add: escaped_def)

lemma escaped_replicate_plain:
  "c \<notin> {CHR ''&'', CHR ''<'', CHR ''>'', CHR 0x22, CHR 0x27} \<Longrightarrow>
   escaped (replicate n c) = replicate n c"
  by (induction n) (simp_all add: escaped_def escapeChar_def)

subsection \<open>Cache\<close>

lemma updateCache_eq:
  "combinedRSSFeed ev srcs = Inr items \<Longrightarrow>
   updateCache ev srcs tRender tUpdate st =
     (Inr (), st\<lparr>cachedFeed := Some (generateRSSXML ev tRender items),
                 lastUpdate := Some tUpdate,
                 console := console st @ [''Updating RSS cache...'', ''Cache updated successfully'']\<rparr>)"
  by (simp add: updateCache_def consoleLog_def)

lemma generateRSSXML_not_empty: "generateRSSXML ev clock items \<noteq> []"
  by (simp add: generateRSSXML_def Let_def)

lemma needsUpdate_iff:
  "needsUpdate now st \<longleftrightarrow>
     \<not> truthy (cachedFeed st) \<or> lastUpdate st = None \<or>
     (\<exists>t. lastUpdate st = Some t \<and> now - t > 15 * 60 * 1000)"
  by (simp add: needsUpdate_def CACHE_DURATION_def split: option.split)

subsection \<open>Unfolding sets for concrete runs\<close>

lemmas sample_defs = sampleEnv_def sampleSource_def sampleEntry_def sampleItem_def
lemmas run_defs = combinedRSSFeed_def combinedRSSFeed_try_def sortedItemsOf_def allItemsOf_def
  allSettled_def fetchFeed_def fetchFeed_try_def toItem_def js_or_def arraySort_def sortBy_def
  compareItems_def dateOf_def sortValue_def Let_def
lemmas key_defs = normalizeTitle_def toLowerCase_def toLowerChar_def isWordChar_def
  isSpaceChar_def char_of_def bit_0

section \<open>The claims\<close>

text \<open>
  C5. Whatever the sources and whatever they deliver, an aggregation run returns a
  list of items, and that list has at most 100 elements: as many as there are keys
  among the fetched items, up to 100, and none when the body throws.
\<close>

theorem combinedRSSFeed_cap:
  "\<exists>items. combinedRSSFeed ev srcs = Inr items \<and> length items \<le> 100 \<and>
     length items =
       (if \<exists>it \<in> set (sortedItemsOf ev srcs). title it = None then 0
        else min 100 (length (keepFirst itemKey (sortedItemsOf ev srcs))))"
  by (cases "\<exists>it \<in> set (sortedItemsOf ev srcs). title it = None")
     (simp_all add: combinedRSSFeed_eq del: not_None_eq)

text \<open>
  C10. \<^verbatim>\<open>combinedRSSFeed\<close> is total at its boundary: a fetch is always fulfilled, the
  aggregation is always fulfilled with a list of items, an exception of its
  \<^verbatim>\<open>try\<close> block becomes the empty list, and \<^verbatim>\<open>GET /json\<close> never answers with
  its status 500.
\<close>

theorem combinedRSSFeed_total:
  "(\<exists>items. fetchFeed ev src = Inr items) \<and>
   (\<exists>items. combinedRSSFeed ev srcs = Inr items) \<and>
   (\<forall>err. combinedRSSFeed_try ev srcs = Inl err \<longrightarrow> combinedRSSFeed ev srcs = Inr []) \<and>
   (\<forall>msg. getJson ev srcs now \<noteq> Status500 msg)"
proof (intro conjI allI impI)
  show "\<exists>items. fetchFeed ev src = Inr items"
    by (simp add: fetchFeed_eq)
  show "\<exists>items. combinedRSSFeed ev srcs = Inr items"
    by (simp add: combinedRSSFeed_eq)
  show "combinedRSSFeed ev srcs = Inr []" if "combinedRSSFeed_try ev srcs = Inl err" for err
    using that by (simp add: combinedRSSFeed_def)
  show "getJson ev srcs now \<noteq> Status500 msg" for msg
    by (simp add: getJson_def combinedRSSFeed_eq)
qed

theorem combinedRSSFeed_total_witness:
  "combinedRSSFeed_try (sampleEnv [(''a'', [sampleEntry None None])] []) [sampleSource ''a'']
     = Inl TypeError \<and>
   combinedRSSFeed (sampleEnv [(''a'', [sampleEntry None None])] []) [sampleSource ''a'']
     = Inr [] \<and>
   getJson (sampleEnv [(''a'', [sampleEntry None None])] []) [sampleSource ''a''] 0
     = JsonOk ''Financial News Hub - Combined Feed''
         ''Combined feed from top financial news sources'' []
         ''1970-01-01T00:00:00.000Z'' [''a'']"
  using combinedRSSFeed_total [of "sampleEnv [(''a'', [sampleEntry None None])] []"
      "sampleSource ''a''" "[sampleSource ''a'']" 0]
  by (simp add: getJson_def run_defs sample_defs)

text \<open>
  C4. A source whose fetch fails contributes nothing: the run over a source list with
  the failing source equals the run over the list without it, and when every source
  fails the run is fulfilled with the empty list.
\<close>

theorem failed_source_contributes_nothing:
  "(parseURL ev (url src) = Inl err \<longrightarrow>
      combinedRSSFeed ev (xs @ src # ys) = combinedRSSFeed ev (xs @ ys) \<and>
      (\<exists>items. combinedRSSFeed ev (xs @ src # ys) = Inr items)) \<and>
   ((\<forall>s \<in> set srcs. \<exists>e. parseURL ev (url s) = Inl e) \<longrightarrow>
      combinedRSSFeed ev srcs = Inr [])"
proof (intro conjI impI)
  assume "parseURL ev (url src) = Inl err"
  then have "allItemsOf ev (xs @ src # ys) = allItemsOf ev (xs @ ys)"
    by (rule allItemsOf_drop_failed)
  then show "combinedRSSFeed ev (xs @ src # ys) = combinedRSSFeed ev (xs @ ys)"
    by (simp add: combinedRSSFeed_def combinedRSSFeed_try_def sortedItemsOf_def)
next
  show "\<exists>items. combinedRSSFeed ev (xs @ src # ys) = Inr items"
    using combinedRSSFeed_eq by blast
next
  assume "\<forall>s \<in> set srcs. \<exists>e. parseURL ev (url s) = Inl e"
  then have "allItemsOf ev srcs = []"
    by (simp add: allItemsOf_def concat_fulfilled_all_failed)
  then show "combinedRSSFeed ev srcs = Inr []"
    by (simp add: combinedRSSFeed_def combinedRSSFeed_try_def sortedItemsOf_def arraySort_Nil)
qed

theorem failed_source_contributes_nothing_witness:
  "parseURL (sampleEnv [(''b'', [sampleEntry (Some ''B!'') None]),
                        (''c'', [sampleEntry (Some ''C?'') None])] []) (url (sampleSource ''a''))
     = Inl (FetchError ''ENOTFOUND'') \<and>
   combinedRSSFeed (sampleEnv [(''b'', [sampleEntry (Some ''B!'') None]),
                               (''c'', [sampleEntry (Some ''C?'') None])] [])
       ([] @ sampleSource ''a'' # [sampleSource ''b'', sampleSource ''c''])
     = Inr [sampleItem ''b'' (Some ''B!'') None, sampleItem ''c'' (Some ''C?'') None] \<and>
   combinedRSSFeed (sampleEnv [(''b'', [sampleEntry (Some ''B!'') None]),
                               (''c'', [sampleEntry (Some ''C?'') None])] [])
       ([] @ [sampleSource ''b'', sampleSource ''c''])
     = Inr [sampleItem ''b'' (Some ''B!'') None, sampleItem ''c'' (Some ''C?'') None] \<and>
   combinedRSSFeed (sampleEnv [(''b'', [sampleEntry (Some ''B!'') None]),
                               (''c'', [sampleEntry (Some ''C?'') None])] [])
       [sampleSource ''a'', sampleSource ''d'']
     = Inr []"
  using failed_source_contributes_nothing
    [of "sampleEnv [(''b'', [sampleEntry (Some ''B!'') None]),
                    (''c'', [sampleEntry (Some ''C?'') None])] []"
        "sampleSource ''a''" "FetchError ''ENOTFOUND''" "[]"
        "[sampleSource ''b'', sampleSource ''c'']"
        "[sampleSource ''a'', sampleSource ''d'']"]
  by (simp add: run_defs sample_defs key_defs)

text \<open>
  C9, as amended. Every item of an aggregation result comes from an entry of a source
  that answered, and its guid is the entry's identifier when that is a non-empty
  string and the entry's link otherwise. So the guid is a non-empty string exactly
  when the entry has a non-empty identifier or a non-empty link; an entry with
  neither yields an item without guid.
\<close>

theorem guid_falls_back_to_link:
  assumes "combinedRSSFeed ev srcs = Inr items" and "it \<in> set items"
  shows "\<exists>src entries e. src \<in> set srcs \<and> parseURL ev (url src) = Inr entries \<and>
           e \<in> set entries \<and> it = toItem src e \<and>
           guid it = (if truthy (e_guid e) then e_guid e else e_link e) \<and>
           truthy (guid it) = (truthy (e_guid e) \<or> truthy (e_link e))"
proof -
  from assms have "it \<in> set (allItemsOf ev srcs)"
    using combinedRSSFeed_subset by blast
  then obtain src entries e where
    "src \<in> set srcs" "parseURL ev (url src) = Inr entries" "e \<in> set entries" "it = toItem src e"
    using allItemsOf_mem by blast
  moreover have "guid (toItem src e) = (if truthy (e_guid e) then e_guid e else e_link e)"
    by (simp add: toItem_def js_or_def)
  moreover have "truthy (guid (toItem src e)) = (truthy (e_guid e) \<or> truthy (e_link e))"
    by (simp add: toItem_def js_or_def)
  ultimately show ?thesis by blast
qed

theorem guid_falls_back_to_link_witness:
  "combinedRSSFeed
     (sampleEnv [(''a'', [(sampleEntry (Some ''Rates'') None)\<lparr>e_link := Some ''http://a/1''\<rparr>])] [])
     [sampleSource ''a'']
    = Inr [(sampleItem ''a'' (Some ''Rates'') None)
             \<lparr>link := Some ''http://a/1'', guid := Some ''http://a/1''\<rparr>] \<and>
   (\<exists>src entries e. src \<in> set [sampleSource ''a''] \<and>
      parseURL (sampleEnv [(''a'', [(sampleEntry (Some ''Rates'') None)\<lparr>e_link := Some ''http://a/1''\<rparr>])] [])
        (url src) = Inr entries \<and>
      e \<in> set entries \<and> e_guid e = None \<and> e_link e = Some ''http://a/1'' \<and>
      guid (toItem src e) = Some ''http://a/1'')"
proof -
  let ?ev = "sampleEnv [(''a'', [(sampleEntry (Some ''Rates'') None)\<lparr>e_link := Some ''http://a/1''\<rparr>])] []"
  let ?it = "(sampleItem ''a'' (Some ''Rates'') None)
               \<lparr>link := Some ''http://a/1'', guid := Some ''http://a/1''\<rparr>"
  have run: "combinedRSSFeed ?ev [sampleSource ''a''] = Inr [?it]"
    by (simp add: run_defs sample_defs key_defs)
  have mem: "?it \<in> set [?it]" by simp
  from guid_falls_back_to_link [OF run mem] run show ?thesis
    by (simp add: sample_defs toItem_def js_or_def)
qed

text \<open>
  C9 as stated fails: an entry that has a title but neither identifier nor link is
  aggregated into an item whose guid is \<^verbatim>\<open>undefined\<close>.
\<close>

theorem guid_missing_counterexample:
  "combinedRSSFeed (sampleEnv [(''a'', [sampleEntry (Some ''Rates'') None])] [])
     [sampleSource ''a'']
    = Inr [sampleItem ''a'' (Some ''Rates'') None] \<and>
   guid (sampleItem ''a'' (Some ''Rates'') None) = None"
  by (simp add: run_defs sample_defs key_defs)

text \<open>
  C1, as amended. The key of an item is its title in lower case with every character
  removed that is not one of \<^verbatim>\<open>A-Z a-z 0-9 _\<close> or white space: the underscore
  stays and letters outside ASCII go. The run returns fetched items only, every
  returned item has a key, and no two returned items share one. Provided every
  non-empty \<open>pubDate\<close> among the fetched items parses to a valid date, the returned
  list is the first 100 of the items that are the first of their key in the sequence
  sorted by date, newest first (and it is empty when a fetched item has no title).
\<close>

theorem dedup_by_normalized_title:
  "\<exists>items. combinedRSSFeed ev srcs = Inr items \<and>
     set items \<subseteq> set (allItemsOf ev srcs) \<and>
     distinct (map itemKey items) \<and>
     (\<forall>it \<in> set items. \<exists>t. title it = Some t \<and> itemKey it = Some (normalizeTitle t)) \<and>
     (\<forall>t. normalizeTitle t =
        filter (\<lambda>c. c \<in> set ''abcdefghijklmnopqrstuvwxyzABCDEFGHIJKLMNOPQRSTUVWXYZ0123456789_''
                   \<or> c \<in> {CHR 0x09, CHR 0x0A, CHR 0x0B, CHR 0x0C, CHR 0x0D, CHR '' '', CHR 0xA0})
          (toLowerCase t)) \<and>
     ((\<forall>it \<in> set (allItemsOf ev srcs).
          truthy (pubDate it) \<longrightarrow> parseDate ev (or_empty (pubDate it)) \<noteq> None) \<longrightarrow>
        items = (if \<exists>it \<in> set (allItemsOf ev srcs). title it = None then []
                 else take 100 (keepFirst itemKey
                        (sortBy (compareItems ev) (allItemsOf ev srcs)))))"
proof -
  obtain items where run: "combinedRSSFeed ev srcs = Inr items"
    using combinedRSSFeed_eq by blast
  have sub: "set items \<subseteq> set (allItemsOf ev srcs)"
    using run by (rule combinedRSSFeed_subset)
  have dist: "distinct (map itemKey items)"
    using run by (rule combinedRSSFeed_distinct_keys)
  have titled: "\<forall>it \<in> set items. \<exists>t. title it = Some t \<and> itemKey it = Some (normalizeTitle t)"
    using run by (blast intro: combinedRSSFeed_titled)
  have key: "\<forall>t. normalizeTitle t =
        filter (\<lambda>c. c \<in> set ''abcdefghijklmnopqrstuvwxyzABCDEFGHIJKLMNOPQRSTUVWXYZ0123456789_''
                   \<or> c \<in> {CHR 0x09, CHR 0x0A, CHR 0x0B, CHR 0x0C, CHR 0x0D, CHR '' '', CHR 0xA0})
          (toLowerCase t)"
    by (rule allI) (rule normalizeTitle_chars)
  have first: "items = (if \<exists>it \<in> set (allItemsOf ev srcs). title it = None then []
                 else take 100 (keepFirst itemKey
                        (sortBy (compareItems ev) (allItemsOf ev srcs))))"
    if valid: "\<forall>it \<in> set (allItemsOf ev srcs).
          truthy (pubDate it) \<longrightarrow> parseDate ev (or_empty (pubDate it)) \<noteq> None"
  proof -
    from valid have "\<forall>it \<in> set (allItemsOf ev srcs). dateOf ev it \<noteq> None"
      by (simp add: dateOf_def)
    then have sorted: "sortedItemsOf ev srcs = sortBy (compareItems ev) (allItemsOf ev srcs)"
      unfolding sortedItemsOf_def by (rule arraySort_valid)
    have same: "set (sortedItemsOf ev srcs) = set (allItemsOf ev srcs)"
      by (simp add: sortedItemsOf_def set_arraySort)
    have "combinedRSSFeed ev srcs =
        Inr (if \<exists>it \<in> set (sortedItemsOf ev srcs). title it = None then []
             else take 100 (keepFirst itemKey (sortedItemsOf ev srcs)))"
      by (rule combinedRSSFeed_eq)
    with run have "items = (if \<exists>it \<in> set (sortedItemsOf ev srcs). title it = None then []
             else take 100 (keepFirst itemKey (sortedItemsOf ev srcs)))"
      by simp
    then show ?thesis
      unfolding same unfolding sorted .
  qed
  from first have cond: "(\<forall>it \<in> set (allItemsOf ev srcs).
          truthy (pubDate it) \<longrightarrow> parseDate ev (or_empty (pubDate it)) \<noteq> None) \<longrightarrow>
        items = (if \<exists>it \<in> set (allItemsOf ev srcs). title it = None then []
                 else take 100 (keepFirst itemKey
                        (sortBy (compareItems ev) (allItemsOf ev srcs))))"
    by (rule impI)
  show ?thesis
    by (rule exI [of _ items]) (intro conjI run sub dist titled key cond)
qed

theorem dedup_by_normalized_title_witness:
  "combinedRSSFeed
     (sampleEnv [(''a'', [sampleEntry (Some ''Fed Raises Rates'') (Some ''t1'')]),
                 (''b'', [sampleEntry (Some ''fed raises rates!!'') (Some ''t2'')])]
                [(''t1'', 1000), (''t2'', 2000)])
     [sampleSource ''a'', sampleSource ''b'']
    = Inr [sampleItem ''b'' (Some ''fed raises rates!!'') (Some ''t2'')] \<and>
   sortBy
     (compareItems
       (sampleEnv [(''a'', [sampleEntry (Some ''Fed Raises Rates'') (Some ''t1'')]),
                   (''b'', [sampleEntry (Some ''fed raises rates!!'') (Some ''t2'')])]
                  [(''t1'', 1000), (''t2'', 2000)]))
     (allItemsOf
       (sampleEnv [(''a'', [sampleEntry (Some ''Fed Raises Rates'') (Some ''t1'')]),
                   (''b'', [sampleEntry (Some ''fed raises rates!!'') (Some ''t2'')])]
                  [(''t1'', 1000), (''t2'', 2000)])
       [sampleSource ''a'', sampleSource ''b''])
    = [sampleItem ''b'' (Some ''fed raises rates!!'') (Some ''t2''),
       sampleItem ''a'' (Some ''Fed Raises Rates'') (Some ''t1'')] \<and>
   normalizeTitle ''Fed Raises Rates'' = ''fed raises rates'' \<and>
   normalizeTitle ''fed raises rates!!'' = ''fed raises rates''"
proof -
  let ?ev = "sampleEnv [(''a'', [sampleEntry (Some ''Fed Raises Rates'') (Some ''t1'')]),
                    (''b'', [sampleEntry (Some ''fed raises rates!!'') (Some ''t2'')])]
                   [(''t1'', 1000), (''t2'', 2000)]"
  let ?srcs = "[sampleSource ''a'', sampleSource ''b'']"
  have all: "allItemsOf ?ev ?srcs
      = [sampleItem ''a'' (Some ''Fed Raises Rates'') (Some ''t1''),
         sampleItem ''b'' (Some ''fed raises rates!!'') (Some ''t2'')]"
    by (simp add: run_defs sample_defs)
  have valid: "\<forall>it \<in> set (allItemsOf ?ev ?srcs).
      truthy (pubDate it) \<longrightarrow> parseDate ?ev (or_empty (pubDate it)) \<noteq> None"
    unfolding all by (simp add: sample_defs)
  have sorted: "sortBy (compareItems ?ev) (allItemsOf ?ev ?srcs)
      = [sampleItem ''b'' (Some ''fed raises rates!!'') (Some ''t2''),
         sampleItem ''a'' (Some ''Fed Raises Rates'') (Some ''t1'')]"
    unfolding all by (simp add: run_defs sample_defs)
  have k1: "normalizeTitle ''Fed Raises Rates'' = ''fed raises rates''"
    by (simp add: key_defs)
  have k2: "normalizeTitle ''fed raises rates!!'' = ''fed raises rates''"
    by (simp add: key_defs)
  from dedup_by_normalized_title [of ?ev ?srcs] valid
  obtain items where "combinedRSSFeed ?ev ?srcs = Inr items"
    and "items = (if \<exists>it \<in> set (allItemsOf ?ev ?srcs). title it = None then []
              else take 100 (keepFirst itemKey (sortBy (compareItems ?ev) (allItemsOf ?ev ?srcs))))"
    by blast
  then have "combinedRSSFeed ?ev ?srcs
      = Inr [sampleItem ''b'' (Some ''fed raises rates!!'') (Some ''t2'')]"
    unfolding sorted by (simp add: all itemKey_def k1 k2 sampleItem_def)
  with sorted k1 k2 show ?thesis by simp
qed

text \<open>
  C1 as stated fails: with the key of the specification (everything but letters,
  digits and white space removed) the titles \<^verbatim>\<open>Fed_Watch\<close> and \<^verbatim>\<open>FedWatch\<close>
  have one key, yet the run returns both items, since the code keeps the underscore.
\<close>

theorem dedup_key_underscore_counterexample:
  "combinedRSSFeed
     (sampleEnv [(''a'', [sampleEntry (Some ''Fed_Watch'') None,
                          sampleEntry (Some ''FedWatch'') None])] [])
     [sampleSource ''a'']
    = Inr [sampleItem ''a'' (Some ''Fed_Watch'') None, sampleItem ''a'' (Some ''FedWatch'') None] \<and>
   specKey ''Fed_Watch'' = ''fedwatch'' \<and> specKey ''FedWatch'' = ''fedwatch'' \<and>
   normalizeTitle ''Fed_Watch'' = ''fed_watch'' \<and> normalizeTitle ''FedWatch'' = ''fedwatch''"
  by (simp add: run_defs sample_defs key_defs specKey_def isLetter_def isDigit_def)

text \<open>
  C6, as amended. Provided every non-empty \<open>pubDate\<close> among the fetched items parses to
  a valid date, the run returns a list in which the time value of an item is never
  below that of a later item, where an item without \<open>pubDate\<close> counts with the time
  value 0: it sorts after every item dated after the epoch and before every item
  dated before it.
\<close>

theorem sorted_by_date_descending:
  assumes "\<forall>it \<in> set (allItemsOf ev srcs).
             truthy (pubDate it) \<longrightarrow> parseDate ev (or_empty (pubDate it)) \<noteq> None"
  shows "\<exists>items. combinedRSSFeed ev srcs = Inr items \<and>
           (\<forall>i j. i < j \<and> j < length items \<longrightarrow>
                  timestamp ev (items ! j) \<le> timestamp ev (items ! i)) \<and>
           (\<forall>it \<in> set items.
              timestamp ev it =
                (if truthy (pubDate it) then sortValue (parseDate ev (or_empty (pubDate it)))
                 else 0))"
proof -
  obtain items where run: "combinedRSSFeed ev srcs = Inr items"
    using combinedRSSFeed_eq by blast
  have "\<forall>it \<in> set (allItemsOf ev srcs). dateOf ev it \<noteq> None"
    using assms by (simp add: dateOf_def)
  then have "sorted_wrt (\<lambda>a b. timestamp ev b \<le> timestamp ev a) items"
    using run by (rule combinedRSSFeed_sorted)
  then have order: "\<forall>i j. i < j \<and> j < length items \<longrightarrow>
                  timestamp ev (items ! j) \<le> timestamp ev (items ! i)"
    by (simp add: sorted_wrt_iff_nth_less)
  have "\<forall>it \<in> set items.
              timestamp ev it =
                (if truthy (pubDate it) then sortValue (parseDate ev (or_empty (pubDate it)))
                 else 0)"
    by (simp add: timestamp_def dateOf_def sortValue_def)
  with run order show ?thesis by blast
qed

theorem sorted_by_date_descending_witness:
  "combinedRSSFeed
     (sampleEnv [(''a'', [sampleEntry (Some ''Old'') (Some ''d1''),
                          sampleEntry (Some ''Undated'') None,
                          sampleEntry (Some ''Before the epoch'') (Some ''d0''),
                          sampleEntry (Some ''New'') (Some ''d2'')])]
                [(''d0'', - 3600000), (''d1'', 1000), (''d2'', 2000)])
     [sampleSource ''a'']
    = Inr [sampleItem ''a'' (Some ''New'') (Some ''d2''),
           sampleItem ''a'' (Some ''Old'') (Some ''d1''),
           sampleItem ''a'' (Some ''Undated'') None,
           sampleItem ''a'' (Some ''Before the epoch'') (Some ''d0'')] \<and>
   map (timestamp
          (sampleEnv [(''a'', [sampleEntry (Some ''Old'') (Some ''d1''),
                          sampleEntry (Some ''Undated'') None,
                          sampleEntry (Some ''Before the epoch'') (Some ''d0''),
                          sampleEntry (Some ''New'') (Some ''d2'')])]
                [(''d0'', - 3600000), (''d1'', 1000), (''d2'', 2000)]))
       [sampleItem ''a'' (Some ''New'') (Some ''d2''),
        sampleItem ''a'' (Some ''Old'') (Some ''d1''),
        sampleItem ''a'' (Some ''Undated'') None,
        sampleItem ''a'' (Some ''Before the epoch'') (Some ''d0'')]
    = [2000, 1000, 0, - 3600000]"
proof -
  let ?ev = "sampleEnv [(''a'', [sampleEntry (Some ''Old'') (Some ''d1''),
                          sampleEntry (Some ''Undated'') None,
                          sampleEntry (Some ''Before the epoch'') (Some ''d0''),
                          sampleEntry (Some ''New'') (Some ''d2'')])]
                [(''d0'', - 3600000), (''d1'', 1000), (''d2'', 2000)]"
  have all: "allItemsOf ?ev [sampleSource ''a'']
      = [sampleItem ''a'' (Some ''Old'') (Some ''d1''),
         sampleItem ''a'' (Some ''Undated'') None,
         sampleItem ''a'' (Some ''Before the epoch'') (Some ''d0''),
         sampleItem ''a'' (Some ''New'') (Some ''d2'')]"
    by (simp add: run_defs sample_defs)
  have valid: "\<forall>it \<in> set (allItemsOf ?ev [sampleSource ''a'']).
             truthy (pubDate it) \<longrightarrow> parseDate ?ev (or_empty (pubDate it)) \<noteq> None"
    unfolding all by (simp add: sample_defs)
  have run: "combinedRSSFeed ?ev [sampleSource ''a'']
    = Inr [sampleItem ''a'' (Some ''New'') (Some ''d2''),
           sampleItem ''a'' (Some ''Old'') (Some ''d1''),
           sampleItem ''a'' (Some ''Undated'') None,
           sampleItem ''a'' (Some ''Before the epoch'') (Some ''d0'')]"
    by (simp add: run_defs sample_defs key_defs)
  from sorted_by_date_descending [OF valid] run show ?thesis
    by (simp add: timestamp_def dateOf_def sortValue_def sample_defs)
qed

text \<open>
  C6 as stated fails: 0 is not the minimum. An item without date comes before an item
  dated \<^verbatim>\<open>Thu, 01 Jan 1970 00:00:00 +0100\<close>, whose time value is negative, so it is
  not at the bottom.
\<close>

theorem undated_not_last_counterexample:
  "combinedRSSFeed
     (sampleEnv [(''a'', [sampleEntry (Some ''Undated'') None,
                          sampleEntry (Some ''Before the epoch'')
                            (Some ''Thu, 01 Jan 1970 00:00:00 +0100'')])]
                [(''Thu, 01 Jan 1970 00:00:00 +0100'', - 3600000)])
     [sampleSource ''a'']
    = Inr [sampleItem ''a'' (Some ''Undated'') None,
           sampleItem ''a'' (Some ''Before the epoch'') (Some ''Thu, 01 Jan 1970 00:00:00 +0100'')] \<and>
   pubDate (sampleItem ''a'' (Some ''Undated'') None) = None \<and>
   dateOf (sampleEnv [(''a'', [sampleEntry (Some ''Undated'') None,
                          sampleEntry (Some ''Before the epoch'')
                            (Some ''Thu, 01 Jan 1970 00:00:00 +0100'')])]
                [(''Thu, 01 Jan 1970 00:00:00 +0100'', - 3600000)])
      (sampleItem ''a'' (Some ''Before the epoch'') (Some ''Thu, 01 Jan 1970 00:00:00 +0100''))
    = Some (- 3600000)"
  by (simp add: run_defs sample_defs key_defs)

text \<open>
  What the amended claim leaves out: a \<open>pubDate\<close> that does not parse makes the
  comparator return NaN against every other item, and the order is the engine's. In
  this run the three comparisons of neighbours read as 0, an engine that takes the
  array for sorted leaves it as it is (the sample's engine does), and the item
  dated 1000 stays in front of the item dated 2000.
\<close>

lemma sort_invalid_date_example:
  "combinedRSSFeed
     (sampleEnv [(''a'', [sampleEntry (Some ''Older'') (Some ''d1''),
                          sampleEntry (Some ''Garbled'') (Some ''next week''),
                          sampleEntry (Some ''Newer'') (Some ''d2'')])]
                [(''d1'', 1000), (''d2'', 2000)])
     [sampleSource ''a'']
    = Inr [sampleItem ''a'' (Some ''Older'') (Some ''d1''),
           sampleItem ''a'' (Some ''Garbled'') (Some ''next week''),
           sampleItem ''a'' (Some ''Newer'') (Some ''d2'')] \<and>
   map (dateOf (sampleEnv [(''a'', [sampleEntry (Some ''Older'') (Some ''d1''),
                          sampleEntry (Some ''Garbled'') (Some ''next week''),
                          sampleEntry (Some ''Newer'') (Some ''d2'')])]
                [(''d1'', 1000), (''d2'', 2000)]))
       [sampleItem ''a'' (Some ''Older'') (Some ''d1''),
        sampleItem ''a'' (Some ''Garbled'') (Some ''next week''),
        sampleItem ''a'' (Some ''Newer'') (Some ''d2'')]
    = [Some 1000, None, Some 2000]"
  by (simp add: run_defs sample_defs key_defs)

text \<open>
  The same on four items, with the engine's answer put in: an engine that sorts short
  arrays by binary insertion never compares the item dated 3000 with the garbled
  one and ranks the four positions 2, 1, 3, 0.
\<close>

lemma sort_engine_order_example:
  "combinedRSSFeed
     ((sampleEnv [(''a'', [sampleEntry (Some ''A'') (Some ''d1''),
                           sampleEntry (Some ''B'') (Some ''d2''),
                           sampleEntry (Some ''G'') (Some ''next week''),
                           sampleEntry (Some ''C'') (Some ''d3'')])]
                 [(''d1'', 1000), (''d2'', 2000), (''d3'', 3000)])
        \<lparr>engineOrder := (\<lambda>xs i. if i = 0 then 2 else if i = 1 then 1 else if i = 2 then 3 else 0)\<rparr>)
     [sampleSource ''a'']
    = Inr [sampleItem ''a'' (Some ''C'') (Some ''d3''),
           sampleItem ''a'' (Some ''B'') (Some ''d2''),
           sampleItem ''a'' (Some ''A'') (Some ''d1''),
           sampleItem ''a'' (Some ''G'') (Some ''next week'')]"
proof -
  have positions: "[0..<4] = [0, 1, 2, 3::nat]"
    by (simp add: upt_rec)
  show ?thesis
    by (simp add: run_defs sample_defs key_defs positions)
qed

text \<open>
  In the markup of one item each of title, link, description, source, category and
  guid stands escaped, character by character; a missing field is the empty string,
  and the description is cut before it is escaped.
\<close>

lemma renderItem_escaped:
  "renderItem ev now it =
     nl @ ''    <item>'' @ nl
     @ ''      <title>'' @ escaped (or_empty (title it)) @ ''</title>'' @ nl
     @ ''      <link>'' @ escaped (or_empty (link it)) @ ''</link>'' @ nl
     @ ''      <description>'' @ escaped (truncateDescription (description it))
     @ ''</description>'' @ nl
     @ ''      <pubDate>'' @ renderPubDate ev now it @ ''</pubDate>'' @ nl
     @ ''      <source>'' @ escaped (source_name it) @ ''</source>'' @ nl
     @ ''      <category>'' @ escaped (item_category it) @ ''</category>'' @ nl
     @ ''      <guid>'' @ escaped (or_empty (guid it)) @ ''</guid>'' @ nl
     @ ''    </item>''"
  by (simp only: renderItem_def Let_def escapeXML_escaped or_empty.simps)

lemma renderItem_description:
  "renderItem ev now it =
     nl @ ''    <item>'' @ nl
     @ ''      <title>'' @ escapeXML (title it) @ ''</title>'' @ nl
     @ ''      <link>'' @ escapeXML (link it) @ ''</link>'' @ nl
     @ ''      <description>''
     @ (if length (description it) > 500
        then escapeXML (Some (take 500 (description it) @ ''...''))
        else escapeXML (Some (description it)))
     @ ''</description>'' @ nl
     @ ''      <pubDate>'' @ renderPubDate ev now it @ ''</pubDate>'' @ nl
     @ ''      <source>'' @ escapeXML (Some (source_name it)) @ ''</source>'' @ nl
     @ ''      <category>'' @ escapeXML (Some (item_category it)) @ ''</category>'' @ nl
     @ ''      <guid>'' @ escapeXML (guid it) @ ''</guid>'' @ nl
     @ ''    </item>''"
proof -
  have "truncateDescription (description it) =
        (if length (description it) > 500 then take 500 (description it) @ ''...''
         else description it)"
    by (simp add: truncateDescription_def)
  then have "escapeXML (Some (truncateDescription (description it))) =
        (if length (description it) > 500
         then escapeXML (Some (take 500 (description it) @ ''...''))
         else escapeXML (Some (description it)))"
    by simp
  then show ?thesis
    by (simp only: renderItem_def Let_def)
qed

text \<open>
  C7. The XML feed is the fixed document frame around the markup of the items, one
  after the other in the order of the list, and in the markup of every item each of
  title, link, description, source, category and guid is embedded escaped: every
  character of the field is replaced on its own, the five reserved characters by
  their escape sequences and every other character by itself, so that no raw
  \<^verbatim>\<open><\<close>, \<^verbatim>\<open>>\<close>, double quote or single quote of the field is left and every
  \<^verbatim>\<open>&\<close> is the head of an escape sequence. A missing field is embedded as the
  empty string, the description after its truncation.
\<close>

theorem item_fields_escaped:
  "generateRSSXML ev clock items =
     ''<?xml version='' @ dq @ ''1.0'' @ dq @ '' encoding='' @ dq @ ''UTF-8'' @ dq @ ''?>'' @ nl
     @ ''<rss version='' @ dq @ ''2.0'' @ dq @ ''>'' @ nl
     @ ''  <channel>'' @ nl
     @ ''    <title>Financial News Hub - Combined Feed</title>'' @ nl
     @ ''    <link>https://your-domain.com/rss</link>'' @ nl
     @ ''    <description>Combined RSS feed from Harvard Business Review, Wall Street Journal, CNBC, Financial Times, and Bloomberg</description>'' @ nl
     @ ''    <language>en-us</language>'' @ nl
     @ ''    <lastBuildDate>'' @ toUTCString ev clock @ ''</lastBuildDate>'' @ nl
     @ ''    <ttl>15</ttl>'' @ nl
     @ ''    '' @ concat (map (\<lambda>it.
            nl @ ''    <item>'' @ nl
            @ ''      <title>'' @ escaped (or_empty (title it)) @ ''</title>'' @ nl
            @ ''      <link>'' @ escaped (or_empty (link it)) @ ''</link>'' @ nl
            @ ''      <description>'' @ escaped (truncateDescription (description it))
            @ ''</description>'' @ nl
            @ ''      <pubDate>'' @ renderPubDate ev (toUTCString ev clock) it @ ''</pubDate>'' @ nl
            @ ''      <source>'' @ escaped (source_name it) @ ''</source>'' @ nl
            @ ''      <category>'' @ escaped (item_category it) @ ''</category>'' @ nl
            @ ''      <guid>'' @ escaped (or_empty (guid it)) @ ''</guid>'' @ nl
            @ ''    </item>'') items) @ nl
     @ ''  </channel>'' @ nl
     @ ''</rss>'' \<and>
   (\<forall>s. escaped s = concat (map escapeChar s)) \<and>
   escapeChar CHR ''&'' = ''&amp;'' \<and> escapeChar CHR ''<'' = ''&lt;'' \<and>
   escapeChar CHR ''>'' = ''&gt;'' \<and> escapeChar (CHR 0x22) = ''&quot;'' \<and>
   escapeChar (CHR 0x27) = ''&#39;'' \<and>
   (\<forall>c. c \<notin> {CHR ''&'', CHR ''<'', CHR ''>'', CHR 0x22, CHR 0x27} \<longrightarrow> escapeChar c = [c]) \<and>
   (\<forall>s. set (escaped s) \<inter> {CHR ''<'', CHR ''>'', CHR 0x22, CHR 0x27} = {})"
proof (intro conjI allI impI)
  have item: "renderItem ev (toUTCString ev clock) = (\<lambda>it.
            nl @ ''    <item>'' @ nl
            @ ''      <title>'' @ escaped (or_empty (title it)) @ ''</title>'' @ nl
            @ ''      <link>'' @ escaped (or_empty (link it)) @ ''</link>'' @ nl
            @ ''      <description>'' @ escaped (truncateDescription (description it))
            @ ''</description>'' @ nl
            @ ''      <pubDate>'' @ renderPubDate ev (toUTCString ev clock) it @ ''</pubDate>'' @ nl
            @ ''      <source>'' @ escaped (source_name it) @ ''</source>'' @ nl
            @ ''      <category>'' @ escaped (item_category it) @ ''</category>'' @ nl
            @ ''      <guid>'' @ escaped (or_empty (guid it)) @ ''</guid>'' @ nl
            @ ''    </item>'')"
    by (rule ext) (rule renderItem_escaped)
  show "generateRSSXML ev clock items =
     ''<?xml version='' @ dq @ ''1.0'' @ dq @ '' encoding='' @ dq @ ''UTF-8'' @ dq @ ''?>'' @ nl
     @ ''<rss version='' @ dq @ ''2.0'' @ dq @ ''>'' @ nl
     @ ''  <channel>'' @ nl
     @ ''    <title>Financial News Hub - Combined Feed</title>'' @ nl
     @ ''    <link>https://your-domain.com/rss</link>'' @ nl
     @ ''    <description>Combined RSS feed from Harvard Business Review, Wall Street Journal, CNBC, Financial Times, and Bloomberg</description>'' @ nl
     @ ''    <language>en-us</language>'' @ nl
     @ ''    <lastBuildDate>'' @ toUTCString ev clock @ ''</lastBuildDate>'' @ nl
     @ ''    <ttl>15</ttl>'' @ nl
     @ ''    '' @ concat (map (\<lambda>it.
            nl @ ''    <item>'' @ nl
            @ ''      <title>'' @ escaped (or_empty (title it)) @ ''</title>'' @ nl
            @ ''      <link>'' @ escaped (or_empty (link it)) @ ''</link>'' @ nl
            @ ''      <description>'' @ escaped (truncateDescription (description it))
            @ ''</description>'' @ nl
            @ ''      <pubDate>'' @ renderPubDate ev (toUTCString ev clock) it @ ''</pubDate>'' @ nl
            @ ''      <source>'' @ escaped (source_name it) @ ''</source>'' @ nl
            @ ''      <category>'' @ escaped (item_category it) @ ''</category>'' @ nl
            @ ''      <guid>'' @ escaped (or_empty (guid it)) @ ''</guid>'' @ nl
            @ ''    </item>'') items) @ nl
     @ ''  </channel>'' @ nl
     @ ''</rss>''"
    by (simp only: generateRSSXML_def Let_def item)
  show "escaped s = concat (map escapeChar s)" for s
    by (rule escaped_def)
  show "set (escaped s) \<inter> {CHR ''<'', CHR ''>'', CHR 0x22, CHR 0x27} = {}" for s
    by (rule escaped_no_raw)
  show "escapeChar c = [c]"
    if "c \<notin> {CHR ''&'', CHR ''<'', CHR ''>'', CHR 0x22, CHR 0x27}" for c
    using that by (simp add: escapeChar_def)
qed (simp_all add: escapeChar_def)

theorem item_fields_escaped_witness:
  "generateRSSXML (sampleEnv [] []) 0
     [\<lparr>title = Some ''R&D <b>up</b>'', link = Some ''http://a/?x=1&y=2'', pubDate = None,
        description = ''He said: '' @ dq @ ''it's > 5'' @ dq, source_name = ''A&B'',
        item_category = ''<News>'', guid = None\<rparr>]
    = ''<?xml version='' @ dq @ ''1.0'' @ dq @ '' encoding='' @ dq @ ''UTF-8'' @ dq @ ''?>'' @ nl
     @ ''<rss version='' @ dq @ ''2.0'' @ dq @ ''>'' @ nl
     @ ''  <channel>'' @ nl
     @ ''    <title>Financial News Hub - Combined Feed</title>'' @ nl
     @ ''    <link>https://your-domain.com/rss</link>'' @ nl
     @ ''    <description>Combined RSS feed from Harvard Business Review, Wall Street Journal, CNBC, Financial Times, and Bloomberg</description>'' @ nl
     @ ''    <language>en-us</language>'' @ nl
     @ ''    <lastBuildDate>'' @ ''Thu, 01 Jan 1970 00:00:00 GMT'' @ ''</lastBuildDate>'' @ nl
     @ ''    <ttl>15</ttl>'' @ nl
     @ ''    '' @ (nl @ ''    <item>'' @ nl
        @ ''      <title>R&amp;D &lt;b&gt;up&lt;/b&gt;</title>'' @ nl
        @ ''      <link>http://a/?x=1&amp;y=2</link>'' @ nl
        @ ''      <description>He said: &quot;it&#39;s &gt; 5&quot;</description>'' @ nl
        @ ''      <pubDate>Thu, 01 Jan 1970 00:00:00 GMT</pubDate>'' @ nl
        @ ''      <source>A&amp;B</source>'' @ nl
        @ ''      <category>&lt;News&gt;</category>'' @ nl
        @ ''      <guid></guid>'' @ nl
        @ ''    </item>'') @ nl
     @ ''  </channel>'' @ nl
     @ ''</rss>''"
  using item_fields_escaped [of "sampleEnv [] []" 0
     "[\<lparr>title = Some ''R&D <b>up</b>'', link = Some ''http://a/?x=1&y=2'', pubDate = None,
        description = ''He said: '' @ dq @ ''it's > 5'' @ dq, source_name = ''A&B'',
        item_category = ''<News>'', guid = None\<rparr>]"]
  by (simp add: escaped_def escapeChar_def truncateDescription_def renderPubDate_def
        sampleEnv_def nl_def dq_def)

text \<open>
  C8. In the XML feed a description of more than 500 characters is embedded as the
  escape of its first 500 characters followed by \<^verbatim>\<open>...\<close>: cut first, escaped
  afterwards. A description of at most 500 characters is embedded as the escape of
  the whole, without marker.
\<close>

theorem description_truncated_then_escaped:
  "generateRSSXML ev clock items =
     ''<?xml version='' @ dq @ ''1.0'' @ dq @ '' encoding='' @ dq @ ''UTF-8'' @ dq @ ''?>'' @ nl
     @ ''<rss version='' @ dq @ ''2.0'' @ dq @ ''>'' @ nl
     @ ''  <channel>'' @ nl
     @ ''    <title>Financial News Hub - Combined Feed</title>'' @ nl
     @ ''    <link>https://your-domain.com/rss</link>'' @ nl
     @ ''    <description>Combined RSS feed from Harvard Business Review, Wall Street Journal, CNBC, Financial Times, and Bloomberg</description>'' @ nl
     @ ''    <language>en-us</language>'' @ nl
     @ ''    <lastBuildDate>'' @ toUTCString ev clock @ ''</lastBuildDate>'' @ nl
     @ ''    <ttl>15</ttl>'' @ nl
     @ ''    '' @ concat (map (\<lambda>it.
            nl @ ''    <item>'' @ nl
            @ ''      <title>'' @ escapeXML (title it) @ ''</title>'' @ nl
            @ ''      <link>'' @ escapeXML (link it) @ ''</link>'' @ nl
            @ ''      <description>''
            @ (if length (description it) > 500
               then escapeXML (Some (take 500 (description it) @ ''...''))
               else escapeXML (Some (description it)))
            @ ''</description>'' @ nl
            @ ''      <pubDate>'' @ renderPubDate ev (toUTCString ev clock) it @ ''</pubDate>'' @ nl
            @ ''      <source>'' @ escapeXML (Some (source_name it)) @ ''</source>'' @ nl
            @ ''      <category>'' @ escapeXML (Some (item_category it)) @ ''</category>'' @ nl
            @ ''      <guid>'' @ escapeXML (guid it) @ ''</guid>'' @ nl
            @ ''    </item>'') items) @ nl
     @ ''  </channel>'' @ nl
     @ ''</rss>''"
proof -
  have item: "renderItem ev (toUTCString ev clock) = (\<lambda>it.
            nl @ ''    <item>'' @ nl
            @ ''      <title>'' @ escapeXML (title it) @ ''</title>'' @ nl
            @ ''      <link>'' @ escapeXML (link it) @ ''</link>'' @ nl
            @ ''      <description>''
            @ (if length (description it) > 500
               then escapeXML (Some (take 500 (description it) @ ''...''))
               else escapeXML (Some (description it)))
            @ ''</description>'' @ nl
            @ ''      <pubDate>'' @ renderPubDate ev (toUTCString ev clock) it @ ''</pubDate>'' @ nl
            @ ''      <source>'' @ escapeXML (Some (source_name it)) @ ''</source>'' @ nl
            @ ''      <category>'' @ escapeXML (Some (item_category it)) @ ''</category>'' @ nl
            @ ''      <guid>'' @ escapeXML (guid it) @ ''</guid>'' @ nl
            @ ''    </item>'')"
    by (rule ext) (rule renderItem_description)
  show ?thesis
    by (simp only: generateRSSXML_def Let_def item)
qed

theorem description_truncated_then_escaped_witness:
  "length (replicate 499 CHR ''a'' @ ''<&>'') = 502 \<and>
   generateRSSXML (sampleEnv [] []) 0
     [(sampleItem ''a'' (Some ''T'') None)\<lparr>description := replicate 499 CHR ''a'' @ ''<&>''\<rparr>]
    = ''<?xml version='' @ dq @ ''1.0'' @ dq @ '' encoding='' @ dq @ ''UTF-8'' @ dq @ ''?>'' @ nl
     @ ''<rss version='' @ dq @ ''2.0'' @ dq @ ''>'' @ nl
     @ ''  <channel>'' @ nl
     @ ''    <title>Financial News Hub - Combined Feed</title>'' @ nl
     @ ''    <link>https://your-domain.com/rss</link>'' @ nl
     @ ''    <description>Combined RSS feed from Harvard Business Review, Wall Street Journal, CNBC, Financial Times, and Bloomberg</description>'' @ nl
     @ ''    <language>en-us</language>'' @ nl
     @ ''    <lastBuildDate>'' @ ''Thu, 01 Jan 1970 00:00:00 GMT'' @ ''</lastBuildDate>'' @ nl
     @ ''    <ttl>15</ttl>'' @ nl
     @ ''    '' @ (nl @ ''    <item>'' @ nl
        @ ''      <title>T</title>'' @ nl
        @ ''      <link></link>'' @ nl
        @ ''      <description>'' @ replicate 499 CHR ''a'' @ ''&lt;...'' @ ''</description>'' @ nl
        @ ''      <pubDate>Thu, 01 Jan 1970 00:00:00 GMT</pubDate>'' @ nl
        @ ''      <source>a</source>'' @ nl
        @ ''      <category>News</category>'' @ nl
        @ ''      <guid></guid>'' @ nl
        @ ''    </item>'') @ nl
     @ ''  </channel>'' @ nl
     @ ''</rss>''"
proof -
  let ?d = "replicate 499 CHR ''a'' @ ''<&>''"
  let ?it = "(sampleItem ''a'' (Some ''T'') None)\<lparr>description := ?d\<rparr>"
  have len: "length ?d = 502" by simp
  have cut: "take 500 ?d @ ''...'' = replicate 499 CHR ''a'' @ ''<...''" by simp
  have esc: "escapeXML (Some (replicate 499 CHR ''a'' @ ''<...''))
      = replicate 499 CHR ''a'' @ ''&lt;...''"
    by (simp add: escapeXML_escaped escaped_append escaped_replicate_plain)
       (simp add: escaped_def escapeChar_def)
  from description_truncated_then_escaped [of "sampleEnv [] []" 0 "[?it]"] len
  show ?thesis
    by (simp add: sampleItem_def sampleEnv_def cut esc escapeXML_escaped renderPubDate_def)
       (simp add: escaped_def escapeChar_def)
qed

text \<open>
  C2, as amended. A refresh is never rejected and always replaces the cache: the
  cached XML becomes the rendering of what the aggregation returned and
  \<open>lastUpdate\<close> the time of the refresh. When the aggregation fails, because its
  body throws or because every source fails, what it returned is the empty list,
  so the cache then holds the rendering of an empty feed, after the first refresh
  as after any later one.
\<close>

theorem failed_refresh_overwrites_cache:
  "\<exists>items. combinedRSSFeed ev srcs = Inr items \<and>
     updateCache ev srcs tRender tUpdate st =
       (Inr (), st\<lparr>cachedFeed := Some (generateRSSXML ev tRender items),
                   lastUpdate := Some tUpdate,
                   console := console st @
                     [''Updating RSS cache...'', ''Cache updated successfully'']\<rparr>) \<and>
     ((\<exists>err. combinedRSSFeed_try ev srcs = Inl err) \<longrightarrow> items = []) \<and>
     ((\<forall>s \<in> set srcs. \<exists>e. parseURL ev (url s) = Inl e) \<longrightarrow> items = [])"
proof -
  obtain items where run: "combinedRSSFeed ev srcs = Inr items"
    using combinedRSSFeed_eq by blast
  have thrown: "items = []" if "\<exists>err. combinedRSSFeed_try ev srcs = Inl err"
    using that run by (auto simp: combinedRSSFeed_def)
  have failed: "items = []" if "\<forall>s \<in> set srcs. \<exists>e. parseURL ev (url s) = Inl e"
  proof -
    from that have "allItemsOf ev srcs = []"
      by (simp add: allItemsOf_def concat_fulfilled_all_failed)
    with run show ?thesis
      by (simp add: combinedRSSFeed_def combinedRSSFeed_try_def sortedItemsOf_def arraySort_Nil)
  qed
  from run updateCache_eq [OF run] thrown failed show ?thesis by blast
qed

theorem failed_refresh_overwrites_cache_witness:
  "combinedRSSFeed_try (sampleEnv [(''a'', [sampleEntry None None])] []) [sampleSource ''a'']
     = Inl TypeError \<and>
   updateCache (sampleEnv [(''a'', [sampleEntry None None])] []) [sampleSource ''a''] 2000 2001
       \<lparr>cachedFeed = Some ''<rss>old</rss>'', lastUpdate = Some 1000, console = []\<rparr>
     = (Inr (),
        \<lparr>cachedFeed = Some (generateRSSXML (sampleEnv [(''a'', [sampleEntry None None])] []) 2000 []),
         lastUpdate = Some 2001,
         console = [''Updating RSS cache...'', ''Cache updated successfully'']\<rparr>)"
proof -
  let ?ev = "sampleEnv [(''a'', [sampleEntry None None])] []"
  have thrown: "combinedRSSFeed_try ?ev [sampleSource ''a''] = Inl TypeError"
    by (simp add: run_defs sample_defs)
  from failed_refresh_overwrites_cache [of ?ev "[sampleSource ''a'']" 2000 2001
      "\<lparr>cachedFeed = Some ''<rss>old</rss>'', lastUpdate = Some 1000, console = []\<rparr>"]
    thrown
  show ?thesis by auto
qed

text \<open>
  C2 as stated fails: with a cache filled at time 1000, a refresh whose aggregation
  body throws replaces the cached XML by the rendering of the empty list and moves
  \<open>lastUpdate\<close> to the time of the refresh; and after such a refresh at startup the
  cache is not empty.
\<close>

theorem stale_cache_not_kept_counterexample:
  "combinedRSSFeed_try (sampleEnv [(''a'', [sampleEntry None None])] []) [sampleSource ''a'']
     = Inl TypeError \<and>
   snd (updateCache (sampleEnv [(''a'', [sampleEntry None None])] []) [sampleSource ''a''] 2000 2001
       \<lparr>cachedFeed = Some ''<rss>old</rss>'', lastUpdate = Some 1000, console = []\<rparr>)
     = \<lparr>cachedFeed = Some (generateRSSXML (sampleEnv [(''a'', [sampleEntry None None])] []) 2000 []),
        lastUpdate = Some 2001,
        console = [''Updating RSS cache...'', ''Cache updated successfully'']\<rparr> \<and>
   generateRSSXML (sampleEnv [(''a'', [sampleEntry None None])] []) 2000 [] \<noteq> ''<rss>old</rss>'' \<and>
   cachedFeed (snd (updateCache (sampleEnv [(''a'', [sampleEntry None None])] [])
                      [sampleSource ''a''] 0 0 initialServer))
     = Some (generateRSSXML (sampleEnv [(''a'', [sampleEntry None None])] []) 0 [])"
proof -
  let ?ev = "sampleEnv [(''a'', [sampleEntry None None])] []"
  have thrown: "combinedRSSFeed_try ?ev [sampleSource ''a''] = Inl TypeError"
    by (simp add: run_defs sample_defs)
  then have run: "combinedRSSFeed ?ev [sampleSource ''a''] = Inr []"
    by (simp add: combinedRSSFeed_def)
  have differs: "generateRSSXML ?ev 2000 [] \<noteq> ''<rss>old</rss>''"
    by (simp add: generateRSSXML_def Let_def)
  from thrown differs show ?thesis
    by (simp add: updateCache_eq [OF run] initialServer_def)
qed

text \<open>
  C3. \<^verbatim>\<open>GET /rss\<close> refreshes exactly when there is no cache entry or the entry is
  older than 15 minutes. It then runs one refresh (one aggregation, one rendering,
  one pair of console lines), stores the result and answers with it. Otherwise it
  answers with the cached XML and leaves the state as it is.
\<close>

theorem rss_route_refreshes_when_stale:
  "(needsUpdate now st \<longleftrightarrow>
      \<not> truthy (cachedFeed st) \<or> lastUpdate st = None \<or>
      (\<exists>t. lastUpdate st = Some t \<and> now - t > 15 * 60 * 1000)) \<and>
   (needsUpdate now st \<longrightarrow>
      (\<exists>items. combinedRSSFeed ev srcs = Inr items \<and>
         getRss ev srcs now tRender tUpdate st =
           (RssOk (generateRSSXML ev tRender items),
            st\<lparr>cachedFeed := Some (generateRSSXML ev tRender items),
                lastUpdate := Some tUpdate,
                console := console st @
                  [''Updating RSS cache...'', ''Cache updated successfully'']\<rparr>))) \<and>
   (\<not> needsUpdate now st \<longrightarrow>
      (\<exists>xml. cachedFeed st = Some xml \<and> getRss ev srcs now tRender tUpdate st = (RssOk xml, st)))"
proof (intro conjI impI)
  show "needsUpdate now st \<longleftrightarrow>
      \<not> truthy (cachedFeed st) \<or> lastUpdate st = None \<or>
      (\<exists>t. lastUpdate st = Some t \<and> now - t > 15 * 60 * 1000)"
    by (rule needsUpdate_iff)
next
  assume stale: "needsUpdate now st"
  obtain items where run: "combinedRSSFeed ev srcs = Inr items"
    using combinedRSSFeed_eq by blast
  have "getRss ev srcs now tRender tUpdate st =
           (RssOk (generateRSSXML ev tRender items),
            st\<lparr>cachedFeed := Some (generateRSSXML ev tRender items),
                lastUpdate := Some tUpdate,
                console := console st @
                  [''Updating RSS cache...'', ''Cache updated successfully'']\<rparr>)"
    using stale by (simp add: getRss_def updateCache_eq [OF run])
  with run show "\<exists>items. combinedRSSFeed ev srcs = Inr items \<and>
         getRss ev srcs now tRender tUpdate st =
           (RssOk (generateRSSXML ev tRender items),
            st\<lparr>cachedFeed := Some (generateRSSXML ev tRender items),
                lastUpdate := Some tUpdate,
                console := console st @
                  [''Updating RSS cache...'', ''Cache updated successfully'']\<rparr>)"
    by blast
next
  assume fresh: "\<not> needsUpdate now st"
  then have "truthy (cachedFeed st)" by (simp add: needsUpdate_iff)
  then obtain xml where xml: "cachedFeed st = Some xml" by (cases "cachedFeed st") simp_all
  with fresh have "getRss ev srcs now tRender tUpdate st = (RssOk xml, st)"
    by (simp add: getRss_def)
  with xml show "\<exists>xml. cachedFeed st = Some xml \<and>
      getRss ev srcs now tRender tUpdate st = (RssOk xml, st)"
    by blast
qed

theorem rss_route_refreshes_when_stale_witness:
  "getRss (sampleEnv [] []) RSS_SOURCES (1000 + 900000 - 1) 901000 901001
     \<lparr>cachedFeed = Some ''<rss>old</rss>'', lastUpdate = Some 1000, console = []\<rparr>
    = (RssOk ''<rss>old</rss>'',
       \<lparr>cachedFeed = Some ''<rss>old</rss>'', lastUpdate = Some 1000, console = []\<rparr>) \<and>
   getRss (sampleEnv [] []) RSS_SOURCES (1000 + 900000) 901000 901001
     \<lparr>cachedFeed = Some ''<rss>old</rss>'', lastUpdate = Some 1000, console = []\<rparr>
    = (RssOk ''<rss>old</rss>'',
       \<lparr>cachedFeed = Some ''<rss>old</rss>'', lastUpdate = Some 1000, console = []\<rparr>) \<and>
   getRss (sampleEnv [] []) RSS_SOURCES (1000 + 900000 + 1) 901002 901003
     \<lparr>cachedFeed = Some ''<rss>old</rss>'', lastUpdate = Some 1000, console = []\<rparr>
    = (RssOk (generateRSSXML (sampleEnv [] []) 901002 []),
       \<lparr>cachedFeed = Some (generateRSSXML (sampleEnv [] []) 901002 []),
        lastUpdate = Some 901003,
        console = [''Updating RSS cache...'', ''Cache updated successfully'']\<rparr>) \<and>
   getRss (sampleEnv [] []) RSS_SOURCES 0 1 2 initialServer
    = (RssOk (generateRSSXML (sampleEnv [] []) 1 []),
       \<lparr>cachedFeed = Some (generateRSSXML (sampleEnv [] []) 1 []),
        lastUpdate = Some 2,
        console = [''Updating RSS cache...'', ''Cache updated successfully'']\<rparr>)"
proof -
  let ?ev = "sampleEnv [] []"
  let ?old = "\<lparr>cachedFeed = Some ''<rss>old</rss>'', lastUpdate = Some 1000, console = []\<rparr>"
  have run: "combinedRSSFeed ?ev RSS_SOURCES = Inr []"
    by (simp add: run_defs sample_defs RSS_SOURCES_def)
  have fresh1: "\<not> needsUpdate (1000 + 900000 - 1) ?old"
    by (simp add: needsUpdate_def CACHE_DURATION_def)
  have fresh2: "\<not> needsUpdate (1000 + 900000) ?old"
    by (simp add: needsUpdate_def CACHE_DURATION_def)
  have stale: "needsUpdate (1000 + 900000 + 1) ?old"
    by (simp add: needsUpdate_def CACHE_DURATION_def)
  have empty: "needsUpdate 0 initialServer"
    by (simp add: needsUpdate_def initialServer_def)
  from rss_route_refreshes_when_stale [of "1000 + 900000 - 1" ?old ?ev RSS_SOURCES 901000 901001]
    rss_route_refreshes_when_stale [of "1000 + 900000" ?old ?ev RSS_SOURCES 901000 901001]
    rss_route_refreshes_when_stale [of "1000 + 900000 + 1" ?old ?ev RSS_SOURCES 901002 901003]
    rss_route_refreshes_when_stale [of 0 initialServer ?ev RSS_SOURCES 1 2]
    fresh1 fresh2 stale empty run
  show ?thesis by (simp add: initialServer_def)
qed

end
